theory Spec2Isabelle
  imports Complex_Main "HOL-Library.Word"
begin

section \<open>GNN-based actor-critic agent of the CIM example\<close>

text \<open>
  A shallow embedding of \<^verbatim>\<open>examples/cim/ac_gnn/agent/gnn_based_actor_critic.py\<close>.
  Arrays and tensors are a shape together with the row-major list of their elements, as
  numpy and torch store them. Index tensors (\<^verbatim>\<open>torch.long\<close>) hold 64-bit words, so
  that sums and offsets wrap as they do in the program; float tensors hold reals.
\<close>

subsection \<open>Errors\<close>

datatype error =
    ValueError      \<comment> \<open>tuple unpacking of a shape of the wrong rank, \<^verbatim>\<open>int()\<close> of a non-number\<close>
  | RuntimeError    \<comment> \<open>torch: \<^verbatim>\<open>view\<close>/\<^verbatim>\<open>reshape\<close> of the wrong size, shapes that do not broadcast\<close>
  | IndexError      \<comment> \<open>index or mask out of range\<close>
  | AxisError       \<comment> \<open>numpy: \<^verbatim>\<open>expand_dims\<close> past the rank\<close>
  | FileNotFoundError

subsection \<open>Tensors\<close>

type_synonym long = "64 word"

record 'a tensor =
  shape :: "nat list"
  elems :: "'a list"

definition numel :: "nat list \<Rightarrow> nat" where
  "numel s = prod_list s"

definition wf_tensor :: "'a tensor \<Rightarrow> bool" where
  "wf_tensor t = (length (elems t) = numel (shape t))"

definition bind_err :: "error + 'a \<Rightarrow> ('a \<Rightarrow> error + 'b) \<Rightarrow> error + 'b" where
  "bind_err m f = (case m of Inl e \<Rightarrow> Inl e | Inr x \<Rightarrow> f x)"

text \<open>\<^verbatim>\<open>torch.arange(n, dtype=torch.long)\<close>.\<close>

definition arange :: "nat \<Rightarrow> long tensor" where
  "arange n = \<lparr> shape = [n], elems = map of_nat [0..<n] \<rparr>"

text \<open>\<^verbatim>\<open>t * k\<close> for a Python integer \<open>k\<close>.\<close>

definition scale :: "long tensor \<Rightarrow> nat \<Rightarrow> long tensor" where
  "scale t k = \<lparr> shape = shape t, elems = map (\<lambda>b. b * of_nat k) (elems t) \<rparr>"

text \<open>
  \<^verbatim>\<open>t.view(*s)\<close> keeps the elements and fails unless the new shape holds exactly as
  many.
\<close>

definition view :: "'a tensor \<Rightarrow> nat list \<Rightarrow> error + 'a tensor" where
  "view t s =
     (if numel s = length (elems t) then Inr \<lparr> shape = s, elems = elems t \<rparr>
      else Inl RuntimeError)"

text \<open>
  \<^verbatim>\<open>t.reshape(-1, *rest)\<close>: the leading size is inferred. torch refuses the call when the
  given sizes multiply to zero (the inferred size is then ambiguous) or do not divide the
  number of elements.
\<close>

definition reshape_infer :: "'a tensor \<Rightarrow> nat list \<Rightarrow> error + 'a tensor" where
  "reshape_infer t rest =
     (if numel rest = 0 \<or> length (elems t) mod numel rest \<noteq> 0 then Inl RuntimeError
      else Inr \<lparr> shape = (length (elems t) div numel rest) # rest, elems = elems t \<rparr>)"

text \<open>
  Broadcasting. Shapes are compared from the last axis (so both functions take the
  reversed shapes): two sizes agree when they are equal or one of them is 1.
  \<open>bcast_index s out i\<close> is the position, in an operand of (reversed) shape \<open>s\<close>, of
  the element that lands on position \<open>i\<close> of the result of (reversed) shape \<open>out\<close>.
\<close>

fun bcast_shape :: "nat list \<Rightarrow> nat list \<Rightarrow> nat list option" where
  "bcast_shape [] ys = Some ys"
| "bcast_shape (x # xs) [] = Some (x # xs)"
| "bcast_shape (x # xs) (y # ys) =
     (if x = y \<or> y = 1 then map_option ((#) x) (bcast_shape xs ys)
      else if x = 1 then map_option ((#) y) (bcast_shape xs ys)
      else None)"

fun bcast_index :: "nat list \<Rightarrow> nat list \<Rightarrow> nat \<Rightarrow> nat" where
  "bcast_index [] out i = 0"
| "bcast_index (d # ds) [] i = 0"
| "bcast_index (d # ds) (n # ns) i =
     (if d = 1 then 0 else i mod n) + d * bcast_index ds ns (i div n)"

definition broadcast2 :: "('a \<Rightarrow> 'b \<Rightarrow> 'c) \<Rightarrow> 'a tensor \<Rightarrow> 'b tensor \<Rightarrow> error + 'c tensor" where
  "broadcast2 f a b =
     (case bcast_shape (rev (shape a)) (rev (shape b)) of
        None \<Rightarrow> Inl RuntimeError
      | Some out \<Rightarrow>
          Inr \<lparr> shape = rev out,
                elems = map (\<lambda>i. f (elems a ! bcast_index (rev (shape a)) out i)
                                    (elems b ! bcast_index (rev (shape b)) out i))
                            [0..<numel out] \<rparr>)"

text \<open>
  \<^verbatim>\<open>a += b\<close>: the in-place addition writes into \<open>a\<close>, so the broadcast shape has
  to be the shape of \<open>a\<close>.
\<close>

definition iadd :: "('a::plus) tensor \<Rightarrow> 'a tensor \<Rightarrow> error + 'a tensor" where
  "iadd a b =
     bind_err (broadcast2 (+) a b)
       (\<lambda>r. if shape r = shape a then Inr r else Inl RuntimeError)"

text \<open>\<^verbatim>\<open>t == 0\<close> and \<^verbatim>\<open>t[mask] = 0\<close> for a mask of the shape of \<open>t\<close>.\<close>

definition eq_zero :: "long tensor \<Rightarrow> bool tensor" where
  "eq_zero t = \<lparr> shape = shape t, elems = map (\<lambda>e. e = 0) (elems t) \<rparr>"

definition zero_where :: "bool tensor \<Rightarrow> long tensor \<Rightarrow> long tensor" where
  "zero_where m t =
     \<lparr> shape = shape t, elems = map (\<lambda>(z, e). if z then 0 else e) (zip (elems m) (elems t)) \<rparr>"

text \<open>
  \<^verbatim>\<open>(ret.sum(dim=0) != 0)\<close> for a matrix of \<open>c\<close> columns: one truth value per
  column.
\<close>

definition col_sum :: "nat \<Rightarrow> long list \<Rightarrow> nat \<Rightarrow> long" where
  "col_sum c es j = sum_list (map (\<lambda>r. es ! (r * c + j)) [0..<length es div c])"

definition col_mask_of :: "long tensor \<Rightarrow> bool list" where
  "col_mask_of t = map (\<lambda>j. col_sum (shape t ! 1) (elems t) j \<noteq> 0) [0..<shape t ! 1]"

text \<open>
  \<^verbatim>\<open>t[:, mask]\<close> (and \<^verbatim>\<open>t[:, mask, :]\<close>): keep, on the second axis, the positions
  where the mask holds. The mask has to be as long as that axis. \<open>kept m\<close> lists the
  positions that stay.
\<close>

definition kept :: "bool list \<Rightarrow> nat list" where
  "kept m = filter (\<lambda>j. m ! j) [0..<length m]"

definition block :: "'a list \<Rightarrow> nat \<Rightarrow> nat \<Rightarrow> 'a list" where
  "block es inner k = map (\<lambda>c. es ! (k * inner + c)) [0..<inner]"

definition select_axis1 :: "bool list \<Rightarrow> 'a tensor \<Rightarrow> error + 'a tensor" where
  "select_axis1 m t =
     (case shape t of
        n # c # rest \<Rightarrow>
          if length m \<noteq> c then Inl IndexError
          else Inr \<lparr> shape = n # length (kept m) # rest,
                     elems = concat (map (\<lambda>r. concat (map (\<lambda>j. block (elems t) (numel rest) (r * c + j))
                                                           (kept m)))
                                         [0..<n]) \<rparr>
      | _ \<Rightarrow> Inl IndexError)"

text \<open>\<^verbatim>\<open>t.transpose(0, 1)\<close>.\<close>

definition transpose01 :: "'a tensor \<Rightarrow> error + 'a tensor" where
  "transpose01 t =
     (case shape t of
        a # b # rest \<Rightarrow>
          Inr \<lparr> shape = b # a # rest,
                elems = concat (map (\<lambda>j. concat (map (\<lambda>i. block (elems t) (numel rest) (i * b + j))
                                                      [0..<a]))
                                    [0..<b]) \<rparr>
      | _ \<Rightarrow> Inl IndexError)"

text \<open>\<^verbatim>\<open>numpy.expand_dims(a, axis)\<close> for \<open>axis \<ge> 0\<close>.\<close>

definition expand_dims :: "'a tensor \<Rightarrow> nat \<Rightarrow> error + 'a tensor" where
  "expand_dims t axis =
     (if axis \<le> length (shape t)
      then Inr \<lparr> shape = take axis (shape t) @ [1] @ drop axis (shape t), elems = elems t \<rparr>
      else Inl AxisError)"

text \<open>
  \<^verbatim>\<open>t.repeat(k, 1, 1)\<close>: a tensor of rank at most 3 is read with leading axes of size
  1 and copied \<open>k\<close> times along the first axis; the result is a new tensor.
\<close>

definition repeat_first :: "nat \<Rightarrow> 'a tensor \<Rightarrow> error + 'a tensor" where
  "repeat_first k t =
     (if length (shape t) > 3 then Inl RuntimeError
      else let s = replicate (3 - length (shape t)) 1 @ shape t
           in Inr \<lparr> shape = (k * hd s) # tl s, elems = concat (replicate k (elems t)) \<rparr>)"

subsection \<open>Flattening an adjacency array\<close>

text \<open>
  \<^verbatim>\<open>GNNBasedActorCritic.flatten_embedding\<close> (lines 228-247), in the four steps of the
  source.

  Lines 230-235: one offset per batch element, shaped to broadcast over the last two axes.
  Unpacking the shape of an array that has neither three nor four axes raises.
\<close>

definition addon_of :: "long tensor \<Rightarrow> long tensor \<Rightarrow> error + long tensor" where
  "addon_of embedding batch_range =
     (case shape embedding of
        [batch, x_cnt, y_cnt] \<Rightarrow> view (scale batch_range y_cnt) [batch, 1, 1]
      | [seq_len, batch, x_cnt, y_cnt] \<Rightarrow> view (scale batch_range y_cnt) [seq_len, batch, 1, 1]
      | _ \<Rightarrow> Inl ValueError)"

text \<open>
  Lines 237-239: the zero entries are remembered, the offsets are added to every entry in
  place, and the remembered entries are set back to zero. The result is the new content of
  \<open>embedding\<close>.
\<close>

definition offset_nonzero :: "long tensor \<Rightarrow> long tensor \<Rightarrow> error + long tensor" where
  "offset_nonzero embedding addon =
     (let embedding_mask = eq_zero embedding in
      bind_err (iadd embedding addon) (\<lambda>added. Inr (zero_where embedding_mask added)))"

text \<open>
  Lines 240-242: the rows are flattened and the columns that sum to zero are dropped. The
  column mask is returned too, for the edges.
\<close>

definition drop_empty_cols :: "long tensor \<Rightarrow> error + (long tensor \<times> bool list)" where
  "drop_empty_cols embedding =
     bind_err (reshape_infer embedding [last (shape embedding)])
       (\<lambda>ret. let col_mask = col_mask_of ret in
              bind_err (select_axis1 col_mask ret) (\<lambda>ret'. Inr (ret', col_mask)))"

text \<open>
  Line 246: \<^verbatim>\<open>edge.reshape(-1, *edge.shape[2:])[:, col_mask, :]\<close>. Three indices need
  three axes.
\<close>

definition flatten_edge :: "bool list \<Rightarrow> 'f tensor \<Rightarrow> error + 'f tensor" where
  "flatten_edge col_mask edge =
     bind_err (reshape_infer edge (drop 2 (shape edge)))
       (\<lambda>e. if length (shape e) < 3 then Inl IndexError else select_axis1 col_mask e)"

text \<open>
  The whole function. The model returns the matrix, the edge tensor (there is one exactly
  when an edge tensor was given) and, third, the content \<open>embedding\<close> is left with.
\<close>

definition flatten_embedding ::
  "long tensor \<Rightarrow> long tensor \<Rightarrow> 'f tensor option
     \<Rightarrow> error + (long tensor \<times> 'f tensor option \<times> long tensor)" where
  "flatten_embedding embedding batch_range edge =
     bind_err (addon_of embedding batch_range)
       (\<lambda>addon.
          bind_err (offset_nonzero embedding addon)
            (\<lambda>embedding'.
               bind_err (drop_empty_cols embedding')
                 (\<lambda>(ret, col_mask).
                    case edge of
                      None \<Rightarrow> Inr (ret, None, embedding')
                    | Some e \<Rightarrow>
                        bind_err (flatten_edge col_mask e)
                          (\<lambda>e'. Inr (ret, Some e', embedding')))))"

text \<open>
  For the statements below: the columns of a matrix of \<open>y\<close> columns whose sum is not
  zero, in increasing order; and what an entry is meant to become. In an array whose last
  two axes have sizes \<open>x\<close> and \<open>y\<close>, the entry at row-major position \<open>i\<close> lies in the
  batch element \<open>i div (x * y)\<close> (lemma \<open>batch_index_flat\<close>).
\<close>

definition nonzero_cols :: "nat \<Rightarrow> long list \<Rightarrow> nat list" where
  "nonzero_cols y es = filter (\<lambda>j. col_sum y es j \<noteq> 0) [0..<y]"

definition offset_entry :: "long tensor \<Rightarrow> nat \<Rightarrow> nat \<Rightarrow> nat \<Rightarrow> long" where
  "offset_entry emb x y i =
     (if elems emb ! i = 0 then 0 else elems emb ! i + of_nat (i div (x * y) * y))"

subsection \<open>Configuration\<close>

record config =
  p2p_adj :: "long tensor"
  td_steps :: int
  reward_discount :: real
  value_discount :: real
  actor_loss_coefficient :: real
  entropy_factor :: real

text \<open>\<^verbatim>\<open>GNNBasedActorCriticConfig.__init__\<close> (lines 30-43).\<close>

definition GNNBasedActorCriticConfig ::
  "long tensor \<Rightarrow> int \<Rightarrow> real \<Rightarrow> real \<Rightarrow> real \<Rightarrow> config" where
  "GNNBasedActorCriticConfig adj steps discount coefficient factor =
     \<lparr> p2p_adj = adj,
       td_steps = steps,
       reward_discount = discount,
       value_discount = discount ^ 100,
       actor_loss_coefficient = coefficient,
       entropy_factor = factor \<rparr>"

subsection \<open>Uniting the graphs of a batch\<close>

text \<open>
  The state is the dictionary of numpy arrays that \<open>union\<close> reads. The feature, edge
  and mask arrays are only read. For the two adjacency arrays the element type matters:
  \<^verbatim>\<open>torch.from_numpy(a)\<close> shares the memory of \<open>a\<close>, \<^verbatim>\<open>.long()\<close> returns the
  tensor itself when it already holds 64-bit integers (a converted copy otherwise), and
  \<^verbatim>\<open>.to(device)\<close> returns the tensor itself when it already lives on the device (a
  copy otherwise). So the tensor that \<open>flatten_embedding\<close> updates in place is the
  caller's array exactly when the array holds 64-bit integers and the device is the CPU.
  \<open>arr\<close> holds the values of an integer array as \<^verbatim>\<open>.long()\<close> reads them.
\<close>

datatype np_dtype = np_int32 | np_int64

datatype device = cpu | cuda

record int_array =
  dtype :: np_dtype
  arr :: "long tensor"

record 'f state =
  st_v :: "'f tensor"
  st_p :: "'f tensor"
  st_vo :: int_array
  st_po :: int_array
  st_pedge :: "'f tensor"
  st_vedge :: "'f tensor"
  st_ppedge :: "'f tensor"
  st_mask :: "bool tensor"
  st_p_idx :: int
  st_v_idx :: int

record 'f relation =
  r_edge :: "'f tensor"
  r_adj :: "long tensor"
  r_mask :: "bool tensor"

record 'f graph =
  g_v :: "'f tensor"
  g_p :: "'f tensor"
  g_pe :: "'f relation"
  g_ve :: "'f relation"
  g_ppe :: "'f relation"
  g_mask :: "bool tensor"

definition shares_memory :: "device \<Rightarrow> int_array \<Rightarrow> bool" where
  "shares_memory dev a = (dev = cpu \<and> dtype a = np_int64)"

text \<open>
  What the caller's array holds after the tensor made from it has been left with the
  elements of \<open>t\<close>. (\<^verbatim>\<open>numpy.expand_dims\<close> returns a view: the array keeps its own
  shape.)
\<close>

definition written_back :: "device \<Rightarrow> int_array \<Rightarrow> long tensor \<Rightarrow> int_array" where
  "written_back dev a t =
     (if shares_memory dev a then a \<lparr> arr := \<lparr> shape = shape (arr a), elems = elems t \<rparr> \<rparr> else a)"

text \<open>Lines 166-173, for a single sample: every array gets its batch axis.\<close>

definition add_batch_axis :: "'f state \<Rightarrow> error + 'f state" where
  "add_batch_axis state =
     bind_err (expand_dims (st_v state) 1) (\<lambda>v.
     bind_err (expand_dims (st_p state) 1) (\<lambda>p.
     bind_err (expand_dims (arr (st_vo state)) 0) (\<lambda>vo.
     bind_err (expand_dims (arr (st_po state)) 0) (\<lambda>po.
     bind_err (expand_dims (st_pedge state) 0) (\<lambda>pedge.
     bind_err (expand_dims (st_vedge state) 0) (\<lambda>vedge.
     bind_err (expand_dims (st_ppedge state) 0) (\<lambda>ppedge.
     bind_err (expand_dims (st_mask state) 0) (\<lambda>seq_mask.
       Inr (state \<lparr> st_v := v, st_p := p,
                    st_vo := (st_vo state) \<lparr> arr := vo \<rparr>,
                    st_po := (st_po state) \<lparr> arr := po \<rparr>,
                    st_pedge := pedge, st_vedge := vedge, st_ppedge := ppedge,
                    st_mask := seq_mask \<rparr>)))))))))"

text \<open>
  One relation of the result (lines 190-196, 198-201 and 205-210): the array is flattened
  with its edges, the mask marks the zero entries of the matrix, and matrix and edges are
  transposed. The second component is the content the adjacency tensor is left with.
\<close>

definition flatten_relation ::
  "long tensor \<Rightarrow> long tensor \<Rightarrow> 'f tensor \<Rightarrow> error + ('f relation \<times> long tensor)" where
  "flatten_relation embedding batch_range edges =
     bind_err (flatten_embedding embedding batch_range (Some edges))
       (\<lambda>(ret, edge', embedding').
          case edge' of
            None \<Rightarrow> Inl ValueError
          | Some e \<Rightarrow>
              bind_err (transpose01 ret) (\<lambda>adj_t.
              bind_err (transpose01 e) (\<lambda>edge_t.
                Inr (\<lparr> r_edge = edge_t, r_adj = adj_t, r_mask = eq_zero ret \<rparr>, embedding'))))"

text \<open>
  Lines 175-219, on the arrays with their batch axis. Returned with the graph: the
  contents the tensors of \<open>vo\<close> and \<open>po\<close> are left with. The static adjacency is
  copied by \<^verbatim>\<open>repeat\<close> before it is flattened, so the configuration is not written to.
\<close>

definition union_batched ::
  "config \<Rightarrow> 'f state \<Rightarrow> error + ('f graph \<times> long tensor \<times> long tensor)" where
  "union_batched cfg b =
     (case shape (st_v b) of
        [seq_len, batch, v_cnt, v_dim] \<Rightarrow>
          (case shape (st_p b) of
             [seq_len', batch', p_cnt, p_dim] \<Rightarrow>
               let batch_range = arange batch in
               bind_err (flatten_relation (arr (st_vo b)) batch_range (st_vedge b)) (\<lambda>(ve, vo').
               bind_err (flatten_relation (arr (st_po b)) batch_range (st_pedge b)) (\<lambda>(pe, po').
               bind_err (repeat_first batch (p2p_adj cfg)) (\<lambda>p2p.
               bind_err (flatten_relation p2p batch_range (st_ppedge b)) (\<lambda>(ppe, p2p').
                 Inr (\<lparr> g_v = st_v b, g_p = st_p b, g_pe = pe, g_ve = ve, g_ppe = ppe,
                        g_mask = st_mask b \<rparr>, vo', po')))))
           | _ \<Rightarrow> Inl ValueError)
      | _ \<Rightarrow> Inl ValueError)"

text \<open>
  \<^verbatim>\<open>GNNBasedActorCritic.union\<close> (lines 157-219). The model returns the graph and the
  state as the call leaves it. (Of a call that raises, the model keeps the error only.)
\<close>

definition union :: "config \<Rightarrow> device \<Rightarrow> 'f state \<Rightarrow> error + ('f graph \<times> 'f state)" where
  "union cfg dev state =
     (let single = (length (shape (st_p state)) = 3) in
      bind_err (if single then add_batch_axis state else Inr state) (\<lambda>b.
      bind_err (union_batched cfg b) (\<lambda>(g, vo', po').
        Inr (g, state \<lparr> st_vo := written_back dev (st_vo state) vo',
                        st_po := written_back dev (st_po state) po' \<rparr>))))"

subsection \<open>Choosing an action\<close>

text \<open>
  \<^verbatim>\<open>GNNBasedActorCritic.choose_action\<close> (lines 48-85). The network, the sampler of the
  categorical distribution (a function of the distribution and of the state of the random
  generator) and the log-probability are parameters. A single sample gets the first
  action and log-probability, a batch gets the arrays.
\<close>

datatype ('a, 'l) chosen = One 'a 'l | Many "'a list" "'l list"

definition first_of :: "'a list \<Rightarrow> error + 'a" where
  "first_of xs = (case xs of [] \<Rightarrow> Inl IndexError | x # _ \<Rightarrow> Inr x)"

definition choose_action ::
  "('f graph \<Rightarrow> int \<Rightarrow> int \<Rightarrow> 'd) \<Rightarrow> ('d \<Rightarrow> 'r \<Rightarrow> 'a list) \<Rightarrow> ('d \<Rightarrow> 'a list \<Rightarrow> 'l list)
     \<Rightarrow> config \<Rightarrow> device \<Rightarrow> 'r \<Rightarrow> 'f state \<Rightarrow> error + (('a, 'l) chosen \<times> 'f state)" where
  "choose_action model sample log_prob cfg dev rng state =
     (let single = (length (shape (st_p state)) = 3) in
      bind_err (union cfg dev state) (\<lambda>(g, state').
        let action_prob = model g (st_p_idx state) (st_v_idx state);
            action = sample action_prob rng;
            log_p = log_prob action_prob action
        in if single
           then bind_err (first_of action) (\<lambda>a.
                bind_err (first_of log_p) (\<lambda>l. Inr (One a l, state')))
           else Inr (Many action log_p, state')))"

text \<open>
  For the comparison of a single sample with a batch of one: the result of a batch, with
  its batch axis taken away.
\<close>

fun unbatch :: "('a, 'l) chosen \<Rightarrow> error + ('a, 'l) chosen" where
  "unbatch (Many action log_p) =
     bind_err (first_of action) (\<lambda>a. bind_err (first_of log_p) (\<lambda>l. Inr (One a l)))"
| "unbatch (One a l) = Inr (One a l)"

subsection \<open>Learning\<close>

text \<open>
  \<^verbatim>\<open>GNNBasedActorCritic.learn\<close> (lines 87-128). What the network returns (the values
  of both states) and what the categorical distribution returns (log-probabilities and
  entropies) are parameters; the optimizer step and the gradient norm belong to the
  network and are left out. Floats are real numbers here.
\<close>

definition scalar_times :: "real \<Rightarrow> real tensor \<Rightarrow> real tensor" where
  "scalar_times c t = \<lparr> shape = shape t, elems = map (\<lambda>e. c * e) (elems t) \<rparr>"

text \<open>Line 116.\<close>

definition advantage_of ::
  "config \<Rightarrow> real tensor \<Rightarrow> real tensor \<Rightarrow> real tensor \<Rightarrow> error + real tensor" where
  "advantage_of cfg returns values_next values =
     bind_err (broadcast2 (+) returns (scalar_times (value_discount cfg) values_next))
       (\<lambda>t. broadcast2 (-) t values)"

text \<open>
  \<^verbatim>\<open>a[:, j] += t\<close>: the index \<open>j\<close> may count from the end, \<open>t\<close> has to broadcast to
  the shape of the column.
\<close>

definition column_iadd :: "real tensor \<Rightarrow> int \<Rightarrow> real tensor \<Rightarrow> error + real tensor" where
  "column_iadd a j t =
     (case shape a of
        n # c # rest \<Rightarrow>
          if j < - int c \<or> int c \<le> j then Inl IndexError
          else
            let col = nat (if j < 0 then int c + j else j);
                inner = numel rest;
                column = n # rest
            in (case bcast_shape (rev column) (rev (shape t)) of
                  None \<Rightarrow> Inl RuntimeError
                | Some out \<Rightarrow>
                    if out \<noteq> rev column then Inl RuntimeError
                    else Inr \<lparr> shape = shape a,
                               elems = map (\<lambda>i. if (i div inner) mod c = col
                                                 then elems a ! i
                                                      + elems t ! bcast_index (rev (shape t)) (rev column)
                                                                    ((i div (c * inner)) * inner + i mod inner)
                                                 else elems a ! i)
                                           [0..<length (elems a)] \<rparr>)
      | _ \<Rightarrow> Inl IndexError)"

text \<open>Lines 118-120.\<close>

definition add_entropy :: "config \<Rightarrow> int \<Rightarrow> real tensor \<Rightarrow> real tensor \<Rightarrow> error + real tensor" where
  "add_entropy cfg p_idx entropy_loss advantage =
     (if entropy_factor cfg \<noteq> 0
      then column_iadd advantage p_idx (scalar_times (entropy_factor cfg) entropy_loss)
      else Inr advantage)"

text \<open>Lines 116-120 together: the advantage that the losses are computed from.\<close>

definition learn_advantage ::
  "config \<Rightarrow> real tensor \<Rightarrow> real tensor \<Rightarrow> real tensor \<Rightarrow> real tensor \<Rightarrow> int
     \<Rightarrow> error + real tensor" where
  "learn_advantage cfg returns values_next values entropy_loss p_idx =
     bind_err (advantage_of cfg returns values_next values) (add_entropy cfg p_idx entropy_loss)"

text \<open>
  \<^verbatim>\<open>torch.sum(t, axis=-1)\<close>, \<^verbatim>\<open>torch.sum(t, axis=1)\<close> and \<^verbatim>\<open>t.mean()\<close>. The mean of
  no elements is not a number: \<open>None\<close>.
\<close>

definition sum_last :: "real tensor \<Rightarrow> real tensor" where
  "sum_last t =
     (if shape t = [] then t
      else \<lparr> shape = butlast (shape t),
             elems = map (\<lambda>k. sum_list (block (elems t) (last (shape t)) k))
                         [0..<numel (butlast (shape t))] \<rparr>)"

definition sum_axis1 :: "real tensor \<Rightarrow> error + real tensor" where
  "sum_axis1 t =
     (case shape t of
        n # c # rest \<Rightarrow>
          Inr \<lparr> shape = n # rest,
                elems = concat (map (\<lambda>r. map (\<lambda>q. sum_list (map (\<lambda>j. elems t ! ((r * c + j) * numel rest + q))
                                                                  [0..<c]))
                                               [0..<numel rest])
                                    [0..<n]) \<rparr>
      | _ \<Rightarrow> Inl IndexError)"

definition mean :: "real tensor \<Rightarrow> real option" where
  "mean t = (if elems t = [] then None else Some (sum_list (elems t) / real (length (elems t))))"

definition pow2 :: "real tensor \<Rightarrow> real tensor" where
  "pow2 t = \<lparr> shape = shape t, elems = map (\<lambda>e. e ^ 2) (elems t) \<rparr>"

text \<open>Line 122 and line 123.\<close>

definition actor_loss_of :: "real tensor \<Rightarrow> real tensor \<Rightarrow> error + real option" where
  "actor_loss_of log_prob advantage =
     bind_err (broadcast2 (*) log_prob (sum_last advantage))
       (\<lambda>t. Inr (map_option uminus (mean t)))"

definition critic_loss_of :: "real tensor \<Rightarrow> error + real option" where
  "critic_loss_of advantage = bind_err (sum_axis1 (pow2 advantage)) (\<lambda>t. Inr (mean t))"

text \<open>The three losses that \<open>learn\<close> returns.\<close>

definition learn ::
  "config \<Rightarrow> real tensor \<Rightarrow> real tensor \<Rightarrow> real tensor \<Rightarrow> real tensor \<Rightarrow> real tensor \<Rightarrow> int
     \<Rightarrow> error + (real option \<times> real option \<times> real option)" where
  "learn cfg returns values values_next log_prob entropy_loss p_idx =
     bind_err (learn_advantage cfg returns values_next values entropy_loss p_idx) (\<lambda>advantage.
     bind_err (actor_loss_of log_prob advantage) (\<lambda>actor_loss.
     bind_err (critic_loss_of advantage) (\<lambda>critic_loss.
       Inr (actor_loss, critic_loss, mean entropy_loss))))"

subsection \<open>Saving and loading\<close>

text \<open>\<^verbatim>\<open>sub in s\<close> and \<^verbatim>\<open>s.split(sep)[0]\<close> for a separator of one character.\<close>

fun starts_with :: "string \<Rightarrow> string \<Rightarrow> bool" where
  "starts_with s [] = True"
| "starts_with [] (c # sub) = False"
| "starts_with (d # s) (c # sub) = (d = c \<and> starts_with s sub)"

fun contains :: "string \<Rightarrow> string \<Rightarrow> bool" where
  "contains [] sub = (sub = [])"
| "contains (d # s) sub = (starts_with (d # s) sub \<or> contains s sub)"

definition split_first :: "char \<Rightarrow> string \<Rightarrow> string" where
  "split_first sep s = takeWhile (\<lambda>c. c \<noteq> sep) s"

text \<open>
  \<^verbatim>\<open>int(s)\<close> for an ASCII string without underscores: white space around (tab, line
  feed, vertical tab, form feed, carriage return and blank: the characters 9 to 13 and
  32), a sign, and at least one digit. For a string with a character beyond ASCII Python
  has further blanks and digits, which are not modelled; where it matters a statement says
  that the name is ASCII.
\<close>

definition is_ascii :: "char \<Rightarrow> bool" where
  "is_ascii c = ((of_char c :: nat) < 128)"

definition is_space :: "char \<Rightarrow> bool" where
  "is_space c = (let n = (of_char c :: nat) in (9 \<le> n \<and> n \<le> 13) \<or> n = 32)"

definition is_digit :: "char \<Rightarrow> bool" where
  "is_digit c = (let n = (of_char c :: nat) in 48 \<le> n \<and> n \<le> 57)"

definition strip :: "string \<Rightarrow> string" where
  "strip s = rev (dropWhile is_space (rev (dropWhile is_space s)))"

definition digits_value :: "string \<Rightarrow> error + int" where
  "digits_value ds =
     (if ds \<noteq> [] \<and> list_all is_digit ds
      then Inr (foldl (\<lambda>a c. 10 * a + (int (of_char c) - 48)) 0 ds)
      else Inl ValueError)"

definition py_int :: "string \<Rightarrow> error + int" where
  "py_int s =
     (case strip s of
        c # ds \<Rightarrow>
          if c = CHR ''-'' then bind_err (digits_value ds) (\<lambda>k. Inr (- k))
          else if c = CHR ''+'' then digits_value ds
          else digits_value (c # ds)
      | [] \<Rightarrow> Inl ValueError)"

text \<open>\<^verbatim>\<open>_get_save_idx\<close> (lines 130-131).\<close>

definition get_save_idx :: "string \<Rightarrow> error + int" where
  "get_save_idx fp_str = py_int (split_first CHR ''_'' (split_first CHR ''.'' fp_str))"

definition save_idx :: "string \<Rightarrow> int" where
  "save_idx fp_str = (case get_save_idx fp_str of Inr k \<Rightarrow> k | Inl e \<Rightarrow> 0)"

definition has_save_idx :: "string \<Rightarrow> bool" where
  "has_save_idx fp_str = (case get_save_idx fp_str of Inr k \<Rightarrow> True | Inl e \<Rightarrow> False)"

text \<open>
  Lines 146-149: the names that contain \<^verbatim>\<open>ac\<close>, sorted by their index (the sort is
  stable and computes every key, so one name without an index makes it raise), and the
  last of them.
\<close>

definition latest_checkpoint :: "string list \<Rightarrow> error + string" where
  "latest_checkpoint names =
     (let fps = filter (\<lambda>f. contains f ''ac'') names in
      if \<not> list_all has_save_idx fps then Inl ValueError
      else let sorted_fps = sort_key save_idx fps in
           if sorted_fps = [] then Inl IndexError else Inr (last sorted_fps))"

text \<open>\<^verbatim>\<open>f"{idx}_ac.pkl"\<close>.\<close>

fun str_of_nat :: "nat \<Rightarrow> string" where
  "str_of_nat n =
     (if n < 10 then [char_of (48 + n)]
      else str_of_nat (n div 10) @ [char_of (48 + n mod 10)])"

definition str_of_int :: "int \<Rightarrow> string" where
  "str_of_int i = (if i < 0 then CHR ''-'' # str_of_nat (nat (- i)) else str_of_nat (nat i))"

text \<open>
  \<^verbatim>\<open>_set_gnn_weights\<close> (lines 139-142): the loaded tensors whose key the network has
  are copied into the network's tensors; \<^verbatim>\<open>copy_\<close> needs the source to broadcast to
  the target.
\<close>

definition copy_into :: "real tensor \<Rightarrow> real tensor \<Rightarrow> error + real tensor" where
  "copy_into target src =
     bind_err (broadcast2 (\<lambda>a b. b) target src)
       (\<lambda>r. if shape r = shape target then Inr r else Inl RuntimeError)"

fun set_gnn_weights ::
  "(string \<rightharpoonup> real tensor) \<Rightarrow> (string \<times> real tensor) list \<Rightarrow> error + (string \<rightharpoonup> real tensor)" where
  "set_gnn_weights sd [] = Inr sd"
| "set_gnn_weights sd ((key, w) # weights) =
     (case sd key of
        None \<Rightarrow> set_gnn_weights sd weights
      | Some target \<Rightarrow>
          bind_err (copy_into target w) (\<lambda>t. set_gnn_weights (sd(key \<mapsto> t)) weights))"

text \<open>
  \<^verbatim>\<open>load_model\<close> (lines 144-155). The folder is the list of its files, in the order
  \<^verbatim>\<open>os.listdir\<close> gives them, each with the weights stored in it.
\<close>

definition load_model ::
  "(string \<rightharpoonup> real tensor) \<Rightarrow> (string \<times> (string \<times> real tensor) list) list \<Rightarrow> int
     \<Rightarrow> error + (string \<rightharpoonup> real tensor)" where
  "load_model sd folder idx =
     bind_err (if idx = - 1 then latest_checkpoint (map fst folder)
               else Inr (str_of_int idx @ ''_ac.pkl''))
       (\<lambda>ac_pth. case map_of folder ac_pth of
                   None \<Rightarrow> Inl FileNotFoundError
                 | Some weights \<Rightarrow> set_gnn_weights sd weights)"

section \<open>Properties\<close>

subsection \<open>Auxiliary facts\<close>

lemma bind_err_Inr: "(bind_err m f = Inr y) = (\<exists>x. m = Inr x \<and> f x = Inr y)"
  by (cases m) (simp_all add: bind_err_def)

lemma bind_err_simps [simp]: "bind_err (Inr x) f = f x" "bind_err (Inl e) f = Inl e"
  by (simp_all add: bind_err_def)

lemma length_concat_uniform:
  "\<forall>xs\<in>set xss. length xs = K \<Longrightarrow> length (concat xss) = length xss * K"
  by (induction xss) simp_all

lemma concat_nth_uniform:
  "\<forall>xs\<in>set xss. length xs = K \<Longrightarrow> r < length xss \<Longrightarrow> k < K
   \<Longrightarrow> concat xss ! (r * K + k) = xss ! r ! k"
proof (induction xss arbitrary: r)
  case Nil
  then show ?case by simp
next
  case (Cons xs xss)
  show ?case
  proof (cases r)
    case 0
    with Cons.prems show ?thesis by (simp add: nth_append)
  next
    case (Suc r')
    with Cons.prems have "concat xss ! (r' * K + k) = xss ! r' ! k"
      by (intro Cons.IH) simp_all
    moreover have "length xs = K" using Cons.prems by simp
    ultimately show ?thesis using Suc by (simp add: nth_append)
  qed
qed

lemma bcast_index_same:
  "i < prod_list s \<Longrightarrow> bcast_index s s i = i"
proof (induction s arbitrary: i)
  case Nil
  then show ?case by simp
next
  case (Cons d ds)
  have "0 < d" using Cons.prems by (cases d) simp_all
  then have "i div d < prod_list ds"
    using Cons.prems by (simp add: less_mult_imp_div_less mult.commute)
  then have "bcast_index ds ds (i div d) = i div d" by (rule Cons.IH)
  then show ?case by (cases "d = 1") simp_all
qed

lemma length_block [simp]: "length (block es inner k) = inner"
  by (simp add: block_def)

lemma nth_block [simp]: "q < inner \<Longrightarrow> block es inner k ! q = es ! (k * inner + q)"
  by (simp add: block_def)

lemma select_axis1_shape:
  assumes "select_axis1 m t = Inr t'" and "shape t = n # c # rest"
  shows "shape t' = n # length (kept m) # rest" and "length m = c"
    and "length (elems t') = n * (length (kept m) * numel rest)"
proof -
  from assms have c: "length m = c"
    by (auto simp: select_axis1_def split: if_splits)
  with assms have t': "t' = \<lparr> shape = n # length (kept m) # rest,
       elems = concat (map (\<lambda>r. concat (map (\<lambda>j. block (elems t) (numel rest) (r * c + j)) (kept m)))
                     [0..<n]) \<rparr>"
    by (auto simp: select_axis1_def)
  show "shape t' = n # length (kept m) # rest" by (simp add: t')
  show "length m = c" by (rule c)
  have "\<And>r. length (concat (map (\<lambda>j. block (elems t) (numel rest) (r * c + j)) (kept m)))
          = length (kept m) * numel rest"
    by (subst length_concat_uniform [where K = "numel rest"]) simp_all
  then show "length (elems t') = n * (length (kept m) * numel rest)"
    by (simp add: t' length_concat_uniform [where K = "length (kept m) * numel rest"])
qed

lemma select_axis1_nth:
  assumes "select_axis1 m t = Inr t'" and "shape t = n # c # rest"
    and "r < n" and "k < length (kept m)" and "q < numel rest"
  shows "elems t' ! ((r * length (kept m) + k) * numel rest + q)
         = elems t ! ((r * c + kept m ! k) * numel rest + q)"
proof -
  let ?K = "length (kept m)" and ?I = "numel rest"
  let ?row = "\<lambda>r. concat (map (\<lambda>j. block (elems t) ?I (r * c + j)) (kept m))"
  from assms have t': "elems t' = concat (map ?row [0..<n])"
    by (auto simp: select_axis1_def split: if_splits)
  have len_row: "\<And>r. length (?row r) = ?K * ?I"
    by (subst length_concat_uniform [where K = ?I]) simp_all
  have "k * ?I + q < Suc k * ?I" using \<open>q < ?I\<close> by simp
  also have "\<dots> \<le> ?K * ?I" using \<open>k < ?K\<close> by (intro mult_le_mono1) simp
  finally have kq: "k * ?I + q < ?K * ?I" .
  have idx: "(r * ?K + k) * ?I + q = r * (?K * ?I) + (k * ?I + q)"
    by (simp add: algebra_simps)
  have "elems t' ! ((r * ?K + k) * ?I + q) = concat (map ?row [0..<n]) ! (r * (?K * ?I) + (k * ?I + q))"
    by (simp only: t' idx)
  also have "\<dots> = map ?row [0..<n] ! r ! (k * ?I + q)"
    using len_row \<open>r < n\<close> kq by (intro concat_nth_uniform) auto
  also have "\<dots> = ?row r ! (k * ?I + q)" using \<open>r < n\<close> by simp
  also have "\<dots> = map (\<lambda>j. block (elems t) ?I (r * c + j)) (kept m) ! k ! q"
    using \<open>k < ?K\<close> \<open>q < ?I\<close> by (intro concat_nth_uniform) auto
  also have "\<dots> = elems t ! ((r * c + kept m ! k) * ?I + q)"
    using \<open>k < ?K\<close> \<open>q < ?I\<close> by simp
  finally show ?thesis .
qed

lemma select_axis1_nth2:
  assumes "select_axis1 m t = Inr t'" and "shape t = [n, c]"
    and "r < n" and "k < length (kept m)"
  shows "elems t' ! (r * length (kept m) + k) = elems t ! (r * c + kept m ! k)"
  using select_axis1_nth [OF assms(1) assms(2) assms(3) assms(4), of 0]
  by (simp add: numel_def)

lemma bcast_index_addon3:
  assumes "i < batch * x * y"
  shows "bcast_index [1, 1, batch] [y, x, batch] i = i div (x * y)"
proof -
  have "i div (y * x) = i div y div x"
    by (rule div_mult2_eq)
  then have "i div y div x = i div (x * y)"
    by (simp only: mult.commute [of x y])
  moreover have "i div (x * y) < batch"
    using assms by (simp add: less_mult_imp_div_less mult.assoc)
  ultimately show ?thesis by simp
qed

lemma bcast_index_addon4:
  assumes "i < seq * batch * x * y"
  shows "bcast_index [1, 1, batch, seq] [y, x, batch, seq] i = i div (x * y)"
proof -
  let ?q = "i div (x * y)"
  have "i div (y * x) = i div y div x"
    by (rule div_mult2_eq)
  then have q: "i div y div x = ?q"
    by (simp only: mult.commute [of x y])
  have "?q < seq * batch"
    using assms by (simp add: less_mult_imp_div_less mult.assoc)
  then have "?q div batch < seq"
    by (simp add: less_mult_imp_div_less)
  then have "(if seq = 1 then 0 else (?q div batch) mod seq) = ?q div batch"
    by auto
  moreover have "(if batch = 1 then 0 else ?q mod batch) = ?q mod batch"
    by auto
  ultimately show ?thesis
    by (simp add: q)
qed

lemma numel_rev [simp]: "numel (rev s) = numel s"
  by (simp add: numel_def)

lemma offset_nonzero_general:
  assumes bs: "bcast_shape (rev (shape emb)) (rev (shape addon)) = Some (rev (shape emb))"
    and wf: "wf_tensor emb"
  shows "offset_nonzero emb addon =
    Inr \<lparr> shape = shape emb,
          elems = map (\<lambda>i. if elems emb ! i = 0 then 0
                            else elems emb ! i
                                 + elems addon ! bcast_index (rev (shape addon)) (rev (shape emb)) i)
                      [0..<length (elems emb)] \<rparr>"
proof -
  let ?n = "length (elems emb)"
  let ?sum = "map (\<lambda>i. elems emb ! bcast_index (rev (shape emb)) (rev (shape emb)) i
                        + elems addon ! bcast_index (rev (shape addon)) (rev (shape emb)) i) [0..<?n]"
  have n: "numel (shape emb) = ?n" using wf by (simp add: wf_tensor_def)
  have add: "iadd emb addon = Inr \<lparr> shape = shape emb, elems = ?sum \<rparr>"
    by (simp add: iadd_def broadcast2_def bs n)
  have "map (\<lambda>(z, e). if z then 0 else e) (zip (map (\<lambda>e. e = 0) (elems emb)) ?sum)
        = map (\<lambda>i. if elems emb ! i = 0 then 0
                    else elems emb ! i
                         + elems addon ! bcast_index (rev (shape addon)) (rev (shape emb)) i) [0..<?n]"
  proof (rule nth_equalityI)
    show "length (map (\<lambda>(z, e). if z then 0 else e) (zip (map (\<lambda>e. e = 0) (elems emb)) ?sum))
          = length (map (\<lambda>i. if elems emb ! i = 0 then 0
                    else elems emb ! i
                         + elems addon ! bcast_index (rev (shape addon)) (rev (shape emb)) i) [0..<?n])"
      by simp
  next
    fix i
    assume "i < length (map (\<lambda>(z, e). if z then 0 else e) (zip (map (\<lambda>e. e = 0) (elems emb)) ?sum))"
    then have i: "i < ?n" by simp
    then have "i < prod_list (rev (shape emb))"
      using n by (simp add: numel_def)
    then have "bcast_index (rev (shape emb)) (rev (shape emb)) i = i"
      by (rule bcast_index_same)
    with i show "map (\<lambda>(z, e). if z then 0 else e) (zip (map (\<lambda>e. e = 0) (elems emb)) ?sum) ! i
          = map (\<lambda>i. if elems emb ! i = 0 then 0
                    else elems emb ! i
                         + elems addon ! bcast_index (rev (shape addon)) (rev (shape emb)) i) [0..<?n] ! i"
      by simp
  qed
  then show ?thesis
    by (simp add: offset_nonzero_def add zero_where_def eq_zero_def)
qed

lemma offset_nonzero_result:
  assumes a: "addon_of emb br = Inr addon" and wf: "wf_tensor emb"
    and sh: "shape emb = [batch, x, y] \<or> shape emb = [seq, batch, x, y]"
  shows "\<exists>emb'. offset_nonzero emb addon = Inr emb' \<and> shape emb' = shape emb
           \<and> length (elems emb') = length (elems emb)
           \<and> (\<forall>i<length (elems emb).
                 i div (x * y) < length (elems br) \<and>
                 elems emb' ! i = (if elems emb ! i = 0 then 0
                                   else elems emb ! i + elems br ! (i div (x * y)) * of_nat y))"
proof -
  from sh show ?thesis
  proof
    assume s3: "shape emb = [batch, x, y]"
    from a s3 have ad: "shape addon = [batch, 1, 1]"
        "elems addon = map (\<lambda>b. b * of_nat y) (elems br)" and len: "length (elems br) = batch"
      by (auto simp: addon_of_def view_def scale_def numel_def split: if_splits)
    have n: "length (elems emb) = batch * x * y"
      using wf s3 by (simp add: wf_tensor_def numel_def)
    have "bcast_shape (rev (shape emb)) (rev (shape addon)) = Some (rev (shape emb))"
      by (simp add: s3 ad)
    from offset_nonzero_general [OF this wf]
    have r: "offset_nonzero emb addon =
      Inr \<lparr> shape = shape emb,
          elems = map (\<lambda>i. if elems emb ! i = 0 then 0
                            else elems emb ! i
                                 + elems addon ! bcast_index [1, 1, batch] [y, x, batch] i)
                      [0..<length (elems emb)] \<rparr>"
      by (simp add: s3 ad del: bcast_index.simps)
    have key: "i div (x * y) < length (elems br) \<and>
            elems addon ! bcast_index [1, 1, batch] [y, x, batch] i = elems br ! (i div (x * y)) * of_nat y"
      if "i < length (elems emb)" for i
    proof -
      from that have i: "i < batch * x * y" by (simp add: n)
      then have q: "i div (x * y) < batch"
        by (simp add: less_mult_imp_div_less mult.assoc)
      show ?thesis
        using q bcast_index_addon3 [OF i] by (simp add: ad len del: bcast_index.simps)
    qed
    show ?thesis by (simp add: r key del: bcast_index.simps One_nat_def)
  next
    assume s4: "shape emb = [seq, batch, x, y]"
    from a s4 have ad: "shape addon = [seq, batch, 1, 1]"
        "elems addon = map (\<lambda>b. b * of_nat y) (elems br)" and len: "length (elems br) = seq * batch"
      by (auto simp: addon_of_def view_def scale_def numel_def split: if_splits)
    have n: "length (elems emb) = seq * batch * x * y"
      using wf s4 by (simp add: wf_tensor_def numel_def mult.assoc)
    have "bcast_shape (rev (shape emb)) (rev (shape addon)) = Some (rev (shape emb))"
      by (simp add: s4 ad)
    from offset_nonzero_general [OF this wf]
    have r: "offset_nonzero emb addon =
      Inr \<lparr> shape = shape emb,
          elems = map (\<lambda>i. if elems emb ! i = 0 then 0
                            else elems emb ! i
                                 + elems addon ! bcast_index [1, 1, batch, seq] [y, x, batch, seq] i)
                      [0..<length (elems emb)] \<rparr>"
      by (simp add: s4 ad del: bcast_index.simps)
    have key: "i div (x * y) < length (elems br) \<and>
            elems addon ! bcast_index [1, 1, batch, seq] [y, x, batch, seq] i = elems br ! (i div (x * y)) * of_nat y"
      if "i < length (elems emb)" for i
    proof -
      from that have i: "i < seq * batch * x * y" by (simp add: n)
      then have q: "i div (x * y) < seq * batch"
        by (simp add: less_mult_imp_div_less mult.assoc)
      show ?thesis
        using q bcast_index_addon4 [OF i] by (simp add: ad len del: bcast_index.simps)
    qed
    show ?thesis by (simp add: r key del: bcast_index.simps One_nat_def)
  qed
qed

lemma kept_col_mask:
  "kept (map (\<lambda>j. col_sum y es j \<noteq> 0) [0..<y]) = nonzero_cols y es"
  unfolding kept_def nonzero_cols_def
  by (rule filter_cong) simp_all

lemma drop_empty_cols_Inr:
  assumes ok: "drop_empty_cols t = Inr (ret, cm)"
  defines "y \<equiv> last (shape t)"
  defines "R \<equiv> length (elems t) div y"
  defines "cols \<equiv> nonzero_cols y (elems t)"
  shows "0 < y" and "cm = map (\<lambda>j. col_sum y (elems t) j \<noteq> 0) [0..<y]"
    and "shape ret = [R, length cols]"
    and "length (elems ret) = R * length cols"
    and "\<And>r k. r < R \<Longrightarrow> k < length cols
           \<Longrightarrow> elems ret ! (r * length cols + k) = elems t ! (r * y + cols ! k)"
proof -
  let ?rt = "\<lparr> shape = [R, y], elems = elems t \<rparr>"
  from ok have y: "0 < y" and rt: "reshape_infer t [y] = Inr ?rt"
    by (auto simp: drop_empty_cols_def bind_err_Inr reshape_infer_def numel_def y_def R_def
             split: if_splits)
  show "0 < y" by (rule y)
  from ok rt have cm: "cm = col_mask_of ?rt" and sel: "select_axis1 cm ?rt = Inr ret"
    by (auto simp: drop_empty_cols_def bind_err_Inr y_def Let_def)
  show cm': "cm = map (\<lambda>j. col_sum y (elems t) j \<noteq> 0) [0..<y]"
    by (simp add: cm col_mask_of_def)
  have k: "kept cm = cols"
    by (simp add: cm' kept_col_mask cols_def)
  have sh: "shape ?rt = [R, y]" by simp
  from select_axis1_shape [OF sel sh]
  show "shape ret = [R, length cols]" and "length (elems ret) = R * length cols"
    by (simp_all add: k numel_def)
  fix r k' assume "r < R" "k' < length cols"
  with select_axis1_nth2 [OF sel sh, of r k']
  show "elems ret ! (r * length cols + k') = elems t ! (r * y + cols ! k')"
    by (simp add: k)
qed

lemma flatten_embedding_Inr:
  assumes "flatten_embedding emb br edge = Inr (ret, edge', emb')"
  obtains addon cm where "addon_of emb br = Inr addon"
    and "offset_nonzero emb addon = Inr emb'"
    and "drop_empty_cols emb' = Inr (ret, cm)"
    and "case edge of None \<Rightarrow> edge' = None
         | Some e \<Rightarrow> \<exists>e'. flatten_edge cm e = Inr e' \<and> edge' = Some e'"
  using assms
  by (auto simp: flatten_embedding_def bind_err_Inr split: option.splits)

lemma nonzero_cols_less: "k < length (nonzero_cols y es) \<Longrightarrow> nonzero_cols y es ! k < y"
  using nth_mem [of k "nonzero_cols y es"] by (simp add: nonzero_cols_def)

lemma nonzero_cols_sum:
  "k < length (nonzero_cols y es) \<Longrightarrow> col_sum y es (nonzero_cols y es ! k) \<noteq> 0"
  using nth_mem [of k "nonzero_cols y es"] by (simp add: nonzero_cols_def)

lemma batch_index_flat:
  assumes "r < x" and "j < (y::nat)"
  shows "((b * x + r) * y + j) div (x * y) = b"
proof -
  have "r * y + j < Suc r * y" using assms by simp
  also have "\<dots> \<le> x * y" using assms by (intro mult_le_mono1) simp
  finally have lt: "r * y + j < x * y" .
  have e: "(b * x + r) * y + j = (r * y + j) + b * (x * y)"
    by (simp add: algebra_simps)
  from lt have nz: "x * y \<noteq> 0" by linarith
  have "((r * y + j) + b * (x * y)) div (x * y) = b + (r * y + j) div (x * y)"
    by (rule div_mult_self1 [OF nz])
  also have "\<dots> = b" using lt by simp
  finally show ?thesis by (simp only: e)
qed

lemma row_col_less:
  assumes "r < n div y" and "c < y"
  shows "r * y + c < (n::nat)"
proof -
  have "r * y + c < Suc r * y" using assms by simp
  also have "\<dots> \<le> (n div y) * y" using assms by (intro mult_le_mono1) simp
  also have "\<dots> \<le> n" by simp
  finally show ?thesis .
qed

lemma flatten_edge_Inr:
  assumes ok: "flatten_edge cm e = Inr e'" and wf: "wf_tensor e"
    and sh: "shape e = [batch, x, y, d]"
  shows "shape e' = [batch * x, length (kept cm), d]"
    and "\<And>r k q. r < batch * x \<Longrightarrow> k < length (kept cm) \<Longrightarrow> q < d
          \<Longrightarrow> elems e' ! ((r * length (kept cm) + k) * d + q)
              = elems e ! ((r * y + kept cm ! k) * d + q)"
proof -
  have n: "length (elems e) = batch * x * (y * d)"
    using wf sh by (simp add: wf_tensor_def numel_def mult.assoc)
  let ?e1 = "\<lparr> shape = [batch * x, y, d], elems = elems e \<rparr>"
  from ok have yd: "0 < y * d"
    by (auto simp: flatten_edge_def bind_err_Inr reshape_infer_def sh numel_def split: if_splits)
  then have r1: "reshape_infer e (drop 2 (shape e)) = Inr ?e1"
    by (simp add: reshape_infer_def sh numel_def n)
  with ok have sel: "select_axis1 cm ?e1 = Inr e'"
    by (auto simp: flatten_edge_def bind_err_Inr split: if_splits)
  have s1: "shape ?e1 = batch * x # y # [d]" by simp
  from select_axis1_shape(1) [OF sel s1]
  show "shape e' = [batch * x, length (kept cm), d]" by simp
  fix r k q assume "r < batch * x" "k < length (kept cm)" "q < d"
  with select_axis1_nth [OF sel s1, of r k q]
  show "elems e' ! ((r * length (kept cm) + k) * d + q)
              = elems e ! ((r * y + kept cm ! k) * d + q)"
    by (simp add: numel_def)
qed

text \<open>On arrays of three axes with at least one column the call returns.\<close>

lemma flatten_embedding_rank3_returns:
  assumes wf: "wf_tensor emb" and sh: "shape emb = [batch, x, y]" and y: "0 < y"
  shows "\<exists>ret emb'. flatten_embedding emb (arange batch) None = Inr (ret, None, emb')"
proof -
  let ?addon = "\<lparr> shape = [batch, 1, 1],
                  elems = map (\<lambda>b. b * of_nat y) (elems (arange batch)) \<rparr>"
  have ad: "addon_of emb (arange batch) = Inr ?addon"
    by (simp add: addon_of_def sh view_def scale_def arange_def numel_def)
  from offset_nonzero_result [OF ad wf disjI1 [OF sh]]
  obtain emb' where off: "offset_nonzero emb ?addon = Inr emb'"
    and sh': "shape emb' = shape emb" and len: "length (elems emb') = length (elems emb)"
    by blast
  have n: "length (elems emb) = batch * x * y"
    using wf sh by (simp add: wf_tensor_def numel_def)
  let ?rt = "\<lparr> shape = [length (elems emb') div y, y], elems = elems emb' \<rparr>"
  have rs: "reshape_infer emb' [last (shape emb')] = Inr ?rt"
    using y by (simp add: reshape_infer_def numel_def sh' sh len n)
  have "length (col_mask_of ?rt) = y" by (simp add: col_mask_of_def)
  then obtain ret where sel: "select_axis1 (col_mask_of ?rt) ?rt = Inr ret"
    by (simp add: select_axis1_def)
  have "drop_empty_cols emb' = Inr (ret, col_mask_of ?rt)"
    by (simp add: drop_empty_cols_def rs sel)
  then have "flatten_embedding emb (arange batch) None = Inr (ret, None, emb')"
    unfolding flatten_embedding_def ad bind_err_simps off by simp
  then show ?thesis by blast
qed

subsection \<open>The derived value discount\<close>

text \<open>
  Claim C1 asks that \<open>value_discount\<close> be the reward discount raised to the power
  \<open>td_steps\<close>, whatever \<open>td_steps\<close> is. The constructor raises it to the constant 100,
  the default of \<open>td_steps\<close>: built with \<open>td_steps = 1\<close> and a discount of one half, the
  configuration holds \<open>(1/2) ^ 100\<close>, which is not \<open>(1/2) ^ 1\<close>.
\<close>

theorem value_discount_ignores_td_steps:
  "value_discount (GNNBasedActorCriticConfig adj 1 (1/2) c e) = (1/2) ^ 100 \<and>
   td_steps (GNNBasedActorCriticConfig adj 1 (1/2) c e) = 1 \<and>
   value_discount (GNNBasedActorCriticConfig adj 1 (1/2) c e) \<noteq> (1/2) ^ 1"
proof -
  have "(1/2::real) ^ 100 < (1/2) ^ 1"
    by (rule power_strict_decreasing) simp_all
  then show ?thesis
    by (simp add: GNNBasedActorCriticConfig_def)
qed

subsection \<open>Offsets never touch the zero entries\<close>

text \<open>
  Claim C4. Let \<open>flatten_embedding\<close> return for an array of shape \<open>(batch, x, y)\<close> or
  \<open>(seq_len, batch, x, y)\<close> and the batch range \<open>arange batch\<close> that \<open>union\<close> passes.
  Then every entry of the array that was zero is zero afterwards, and every other entry has
  grown by its batch index times \<open>y\<close>; the batch index is below \<open>batch\<close>. The returned
  matrix consists of such entries: its entry in row \<open>r\<close> and \<open>k\<close>-th kept column is the
  updated entry of row \<open>r\<close> in that column. (That the call returns on arrays of three
  axes is lemma \<open>flatten_embedding_rank3_returns\<close>.)
\<close>

theorem flatten_embedding_offsets:
  assumes ok: "flatten_embedding emb (arange batch) edge = Inr (ret, edge', emb')"
    and wf: "wf_tensor emb"
    and sh: "shape emb = [batch, x, y] \<or> shape emb = [seq_len, batch, x, y]"
  shows "(\<forall>i<length (elems emb). i div (x * y) < batch \<and> elems emb' ! i = offset_entry emb x y i)
       \<and> shape ret = [length (elems emb) div y, length (nonzero_cols y (elems emb'))]
       \<and> (\<forall>r k. r < length (elems emb) div y \<and> k < length (nonzero_cols y (elems emb'))
             \<longrightarrow> elems ret ! (r * length (nonzero_cols y (elems emb')) + k)
                   = offset_entry emb x y (r * y + nonzero_cols y (elems emb') ! k))"
proof -
  from ok obtain addon cm where ad: "addon_of emb (arange batch) = Inr addon"
    and off: "offset_nonzero emb addon = Inr emb'"
    and dr: "drop_empty_cols emb' = Inr (ret, cm)"
    by (rule flatten_embedding_Inr)
  from offset_nonzero_result [OF ad wf sh] off
  have sh': "shape emb' = shape emb" and len: "length (elems emb') = length (elems emb)"
    and nth: "\<And>i. i < length (elems emb) \<Longrightarrow>
        i div (x * y) < length (elems (arange batch)) \<and>
        elems emb' ! i = (if elems emb ! i = 0 then 0
                          else elems emb ! i + elems (arange batch) ! (i div (x * y)) * of_nat y)"
    by auto
  have ent: "i div (x * y) < batch \<and> elems emb' ! i = offset_entry emb x y i"
    if "i < length (elems emb)" for i
    using nth [OF that] by (simp add: arange_def offset_entry_def)
  have y: "last (shape emb') = y" using sh by (auto simp: sh')
  note d = drop_empty_cols_Inr [OF dr, unfolded y len]
  have "elems ret ! (r * length (nonzero_cols y (elems emb')) + k)
          = offset_entry emb x y (r * y + nonzero_cols y (elems emb') ! k)"
    if "r < length (elems emb) div y" and "k < length (nonzero_cols y (elems emb'))" for r k
  proof -
    have "r * y + nonzero_cols y (elems emb') ! k < length (elems emb)"
      using that by (intro row_col_less nonzero_cols_less)
    with d(5) [OF that] ent show ?thesis by simp
  qed
  with ent d(3) show ?thesis by blast
qed

theorem flatten_embedding_offsets_witness:
  "flatten_embedding \<lparr> shape = [2, 2, 3], elems = [1, 0, 3, 0, 0, 2, 1, 0, 0, 0, 0, 3] \<rparr> (arange 2)
       (None :: real tensor option)
     = Inr (\<lparr> shape = [4, 2], elems = [1, 3, 0, 2, 4, 0, 0, 6] \<rparr>, None,
            \<lparr> shape = [2, 2, 3], elems = [1, 0, 3, 0, 0, 2, 4, 0, 0, 0, 0, 6] \<rparr>)
   \<and> wf_tensor \<lparr> shape = [2, 2, 3], elems = [1, 0, 3, 0, 0, 2, 1, 0, 0, 0, 0, 3 :: long] \<rparr>
   \<and> [1, 0, 3, 0, 0, 2, 4, 0, 0, 0, 0, 6] ! 6
       = offset_entry \<lparr> shape = [2, 2, 3], elems = [1, 0, 3, 0, 0, 2, 1, 0, 0, 0, 0, 3] \<rparr> 2 3 6
   \<and> offset_entry \<lparr> shape = [2, 2, 3], elems = [1, 0, 3, 0, 0, 2, 1, 0, 0, 0, 0, 3] \<rparr> 2 3 6 = 4
   \<and> [1, 3, 0, 2, 4, 0, 0, 6] ! (2 * 2 + 0)
       = offset_entry \<lparr> shape = [2, 2, 3], elems = [1, 0, 3, 0, 0, 2, 1, 0, 0, 0, 0, 3] \<rparr> 2 3 (2 * 3 + 0)"
  (is "?A \<and> ?B \<and> ?C \<and> ?D \<and> ?E")
proof -
  let ?e = "\<lparr> shape = [2, 2, 3], elems = [1, 0, 3, 0, 0, 2, 1, 0, 0, 0, 0, 3 :: long] \<rparr>"
  let ?e' = "\<lparr> shape = [2, 2, 3], elems = [1, 0, 3, 0, 0, 2, 4, 0, 0, 0, 0, 6 :: long] \<rparr>"
  let ?ret = "\<lparr> shape = [4, 2], elems = [1, 3, 0, 2, 4, 0, 0, 6 :: long] \<rparr>"
  have ok: ?A by code_simp
  have wf: ?B by (simp add: wf_tensor_def numel_def)
  have sh: "shape ?e = [2, 2, 3] \<or> shape ?e = [0, 2, 2, 3]" by simp
  note t = flatten_embedding_offsets [OF ok wf sh]
  have cols: "nonzero_cols 3 [1, 0, 3, 0, 0, 2, 4, 0, 0, 0, 0, 6] = [0, 2]" by code_simp
  from t have "\<forall>i<length (elems ?e). i div (2 * 3) < 2 \<and> elems ?e' ! i = offset_entry ?e 2 3 i"
    by blast
  moreover have "(6::nat) < length (elems ?e)" by simp
  ultimately have "elems ?e' ! 6 = offset_entry ?e 2 3 6" by blast
  then have c: ?C by simp
  have d: ?D by (simp add: offset_entry_def)
  from t have "\<forall>r k. r < length (elems ?e) div 3 \<and> k < length (nonzero_cols 3 (elems ?e'))
             \<longrightarrow> elems ?ret ! (r * length (nonzero_cols 3 (elems ?e')) + k)
                   = offset_entry ?e 2 3 (r * 3 + nonzero_cols 3 (elems ?e') ! k)"
    by blast
  moreover have "(2::nat) < length (elems ?e) div 3 \<and> (0::nat) < length (nonzero_cols 3 (elems ?e'))"
    by (simp add: cols)
  ultimately have "elems ?ret ! (2 * length (nonzero_cols 3 (elems ?e')) + 0)
                   = offset_entry ?e 2 3 (2 * 3 + nonzero_cols 3 (elems ?e') ! 0)"
    by blast
  then have e: ?E by (simp add: cols)
  from ok wf c d e show ?thesis by blast
qed

subsection \<open>Which columns are dropped\<close>

text \<open>
  On both paths the returned matrix has the flattened rows and exactly the columns of the
  flattened array whose sum is not zero, in their order. For an array of three axes, an
  edge tensor of shape \<open>(batch, x, y, d)\<close> comes back with the same \<open>batch * x\<close> rows and
  the same columns: the edge at row \<open>r\<close> and \<open>k\<close>-th kept column is the edge of the
  entry that the matrix holds there.
\<close>

theorem flatten_embedding_columns:
  assumes ok: "flatten_embedding emb br edge = Inr (ret, edge', emb')"
    and wf: "wf_tensor emb"
    and sh: "shape emb = [batch, x, y] \<or> shape emb = [seq_len, batch, x, y]"
  shows "shape ret = [length (elems emb) div y, length (nonzero_cols y (elems emb'))]
       \<and> (\<forall>r k. r < length (elems emb) div y \<and> k < length (nonzero_cols y (elems emb'))
             \<longrightarrow> elems ret ! (r * length (nonzero_cols y (elems emb')) + k)
                   = elems emb' ! (r * y + nonzero_cols y (elems emb') ! k))
       \<and> (\<forall>e d. shape emb = [batch, x, y] \<and> edge = Some e \<and> wf_tensor e
                  \<and> shape e = [batch, x, y, d]
             \<longrightarrow> length (elems emb) div y = batch * x
               \<and> (\<exists>e'. edge' = Some e'
                    \<and> shape e' = [batch * x, length (nonzero_cols y (elems emb')), d]
                    \<and> (\<forall>r k q. r < batch * x \<and> k < length (nonzero_cols y (elems emb')) \<and> q < d
                          \<longrightarrow> elems e' ! ((r * length (nonzero_cols y (elems emb')) + k) * d + q)
                                = elems e ! ((r * y + nonzero_cols y (elems emb') ! k) * d + q))))"
proof -
  from ok obtain addon cm where ad: "addon_of emb br = Inr addon"
    and off: "offset_nonzero emb addon = Inr emb'"
    and dr: "drop_empty_cols emb' = Inr (ret, cm)"
    and ed: "case edge of None \<Rightarrow> edge' = None
             | Some e \<Rightarrow> \<exists>e'. flatten_edge cm e = Inr e' \<and> edge' = Some e'"
    by (rule flatten_embedding_Inr)
  from offset_nonzero_result [OF ad wf sh] off
  have sh': "shape emb' = shape emb" and len: "length (elems emb') = length (elems emb)"
    by auto
  have y: "last (shape emb') = y" using sh by (auto simp: sh')
  note d = drop_empty_cols_Inr [OF dr, unfolded y len]
  have k: "kept cm = nonzero_cols y (elems emb')"
    by (simp add: d(2) len kept_col_mask)
  have "length (elems emb) div y = batch * x
        \<and> (\<exists>e'. edge' = Some e'
          \<and> shape e' = [batch * x, length (nonzero_cols y (elems emb')), d]
          \<and> (\<forall>r k q. r < batch * x \<and> k < length (nonzero_cols y (elems emb')) \<and> q < d
                \<longrightarrow> elems e' ! ((r * length (nonzero_cols y (elems emb')) + k) * d + q)
                      = elems e ! ((r * y + nonzero_cols y (elems emb') ! k) * d + q)))"
    if "shape emb = [batch, x, y] \<and> edge = Some e \<and> wf_tensor e \<and> shape e = [batch, x, y, d]"
    for e d
  proof -
    from that have s3: "shape emb = [batch, x, y]" and e: "edge = Some e"
      and we: "wf_tensor e" and se: "shape e = [batch, x, y, d]" by simp_all
    have R: "length (elems emb) div y = batch * x"
      using wf d(1) by (simp add: wf_tensor_def s3 numel_def)
    from ed e obtain e' where fe: "flatten_edge cm e = Inr e'" and e': "edge' = Some e'"
      by auto
    from flatten_edge_Inr [OF fe we se] e' R show ?thesis
      by (simp add: k)
  qed
  with d(3) d(5) show ?thesis by blast
qed

theorem flatten_embedding_columns_witness:
  "flatten_embedding \<lparr> shape = [2, 2, 3], elems = [1, 0, 3, 0, 0, 2, 1, 0, 0, 0, 0, 3] \<rparr> (arange 2)
       (Some \<lparr> shape = [2, 2, 3, 1], elems = [10, 11, 12, 13, 14, 15, 16, 17, 18, 19, 20, 21 :: real] \<rparr>)
     = Inr (\<lparr> shape = [4, 2], elems = [1, 3, 0, 2, 4, 0, 0, 6] \<rparr>,
            Some \<lparr> shape = [4, 2, 1], elems = [10, 12, 13, 15, 16, 18, 19, 21] \<rparr>,
            \<lparr> shape = [2, 2, 3], elems = [1, 0, 3, 0, 0, 2, 4, 0, 0, 0, 0, 6] \<rparr>)
   \<and> wf_tensor \<lparr> shape = [2, 2, 3], elems = [1, 0, 3, 0, 0, 2, 1, 0, 0, 0, 0, 3 :: long] \<rparr>
   \<and> wf_tensor \<lparr> shape = [2, 2, 3, 1], elems = [10, 11, 12, 13, 14, 15, 16, 17, 18, 19, 20, 21 :: real] \<rparr>
   \<and> nonzero_cols 3 [1, 0, 3, 0, 0, 2, 4, 0, 0, 0, 0, 6] = [0, 2]
   \<and> [1, 3, 0, 2, 4, 0, 0, 6 :: long] ! (1 * 2 + 1) = [1, 0, 3, 0, 0, 2, 4, 0, 0, 0, 0, 6] ! (1 * 3 + 2)
   \<and> [10, 12, 13, 15, 16, 18, 19, 21 :: real] ! ((1 * 2 + 1) * 1 + 0)
       = [10, 11, 12, 13, 14, 15, 16, 17, 18, 19, 20, 21] ! ((1 * 3 + 2) * 1 + 0)"
  (is "?A \<and> ?B \<and> ?C \<and> ?D \<and> ?E \<and> ?F")
proof -
  let ?e = "\<lparr> shape = [2, 2, 3], elems = [1, 0, 3, 0, 0, 2, 1, 0, 0, 0, 0, 3 :: long] \<rparr>"
  let ?e' = "\<lparr> shape = [2, 2, 3], elems = [1, 0, 3, 0, 0, 2, 4, 0, 0, 0, 0, 6 :: long] \<rparr>"
  let ?ret = "\<lparr> shape = [4, 2], elems = [1, 3, 0, 2, 4, 0, 0, 6 :: long] \<rparr>"
  let ?ed = "\<lparr> shape = [2, 2, 3, 1], elems = [10, 11, 12, 13, 14, 15, 16, 17, 18, 19, 20, 21 :: real] \<rparr>"
  let ?ed' = "\<lparr> shape = [4, 2, 1], elems = [10, 12, 13, 15, 16, 18, 19, 21 :: real] \<rparr>"
  have ok: ?A by code_simp
  have wf: ?B by (simp add: wf_tensor_def numel_def)
  have wfe: ?C by (simp add: wf_tensor_def numel_def)
  have cols: ?D by code_simp
  have sh: "shape ?e = [2, 2, 3] \<or> shape ?e = [0, 2, 2, 3]" by simp
  note t = flatten_embedding_columns [OF ok wf sh]
  from t have "\<forall>r k. r < length (elems ?e) div 3 \<and> k < length (nonzero_cols 3 (elems ?e'))
             \<longrightarrow> elems ?ret ! (r * length (nonzero_cols 3 (elems ?e')) + k)
                   = elems ?e' ! (r * 3 + nonzero_cols 3 (elems ?e') ! k)"
    by blast
  moreover have rk: "(1::nat) < length (elems ?e) div 3 \<and> (1::nat) < length (nonzero_cols 3 (elems ?e'))"
    by (simp add: cols)
  ultimately have "elems ?ret ! (1 * length (nonzero_cols 3 (elems ?e')) + 1)
                   = elems ?e' ! (1 * 3 + nonzero_cols 3 (elems ?e') ! 1)"
    by blast
  then have e: ?E by (simp add: cols)
  from t have "\<forall>e d. shape ?e = [2, 2, 3] \<and> Some ?ed = Some e \<and> wf_tensor e \<and> shape e = [2, 2, 3, d]
             \<longrightarrow> length (elems ?e) div 3 = 2 * 2
               \<and> (\<exists>e'. Some ?ed' = Some e'
                    \<and> shape e' = [2 * 2, length (nonzero_cols 3 (elems ?e')), d]
                    \<and> (\<forall>r k q. r < 2 * 2 \<and> k < length (nonzero_cols 3 (elems ?e')) \<and> q < d
                          \<longrightarrow> elems e' ! ((r * length (nonzero_cols 3 (elems ?e')) + k) * d + q)
                                = elems e ! ((r * 3 + nonzero_cols 3 (elems ?e') ! k) * d + q)))"
    by blast
  moreover have "shape ?e = [2, 2, 3] \<and> Some ?ed = Some ?ed \<and> wf_tensor ?ed \<and> shape ?ed = [2, 2, 3, 1]"
    using wfe by simp
  ultimately have "\<exists>e'. Some ?ed' = Some e'
                    \<and> shape e' = [2 * 2, length (nonzero_cols 3 (elems ?e')), 1]
                    \<and> (\<forall>r k q. r < 2 * 2 \<and> k < length (nonzero_cols 3 (elems ?e')) \<and> q < 1
                          \<longrightarrow> elems e' ! ((r * length (nonzero_cols 3 (elems ?e')) + k) * 1 + q)
                                = elems ?ed ! ((r * 3 + nonzero_cols 3 (elems ?e') ! k) * 1 + q))"
    by blast
  then have "\<forall>r k q. r < 2 * 2 \<and> k < length (nonzero_cols 3 (elems ?e')) \<and> q < 1
                          \<longrightarrow> elems ?ed' ! ((r * length (nonzero_cols 3 (elems ?e')) + k) * 1 + q)
                                = elems ?ed ! ((r * 3 + nonzero_cols 3 (elems ?e') ! k) * 1 + q)"
    by blast
  moreover have "(1::nat) < 2 * 2 \<and> (1::nat) < length (nonzero_cols 3 (elems ?e')) \<and> (0::nat) < 1"
    by (simp add: cols)
  ultimately have "elems ?ed' ! ((1 * length (nonzero_cols 3 (elems ?e')) + 1) * 1 + 0)
                                = elems ?ed ! ((1 * 3 + nonzero_cols 3 (elems ?e') ! 1) * 1 + 0)"
    by blast
  then have f: ?F by (simp add: cols)
  from ok wf wfe cols e f show ?thesis by blast
qed

text \<open>
  Claim C7 asks that, whenever an edge tensor is supplied, it gets the same row flattening
  and column filter as the adjacency, so that edges and entries stay aligned. For arrays
  of three axes this holds (theorem \<open>flatten_embedding_columns\<close>). For arrays of four
  axes it does not: line 246 flattens the first two axes of the edge tensor only, so the
  \<open>x\<close> axis stays apart from the rows and the column mask is applied to it. For the array
  of shape \<open>(1, 2, 2, 2)\<close> below the second column is dropped and the matrix has four rows
  of one entry; the edge tensor of shape \<open>(1, 2, 2, 2, 1)\<close> comes back with shape
  \<open>(2, 1, 2, 1)\<close>, holding the edges 10, 11, 14 and 15, where the edges of the kept
  entries are 10, 12, 14 and 16. With \<open>x\<close> different from \<open>y\<close> the mask does not fit
  the axis and the call raises. The same data with three axes comes back aligned.
\<close>

theorem flatten_embedding_rank4_edges_misaligned:
  "flatten_embedding \<lparr> shape = [1, 2, 2, 2], elems = [1, 0, 2, 0, 1, 0, 0, 0] \<rparr> (arange 2)
       (Some \<lparr> shape = [1, 2, 2, 2, 1], elems = [10, 11, 12, 13, 14, 15, 16, 17 :: real] \<rparr>)
     = Inr (\<lparr> shape = [4, 1], elems = [1, 2, 3, 0] \<rparr>,
            Some \<lparr> shape = [2, 1, 2, 1], elems = [10, 11, 14, 15] \<rparr>,
            \<lparr> shape = [1, 2, 2, 2], elems = [1, 0, 2, 0, 3, 0, 0, 0] \<rparr>)
   \<and> flatten_embedding \<lparr> shape = [1, 2, 2, 3], elems = [1, 0, 2, 0, 0, 0, 1, 0, 0, 0, 0, 0] \<rparr>
       (arange 2)
       (Some \<lparr> shape = [1, 2, 2, 3, 1],
               elems = [10, 11, 12, 13, 14, 15, 16, 17, 18, 19, 20, 21 :: real] \<rparr>)
     = Inl IndexError
   \<and> flatten_embedding \<lparr> shape = [2, 2, 2], elems = [1, 0, 2, 0, 1, 0, 0, 0] \<rparr> (arange 2)
       (Some \<lparr> shape = [2, 2, 2, 1], elems = [10, 11, 12, 13, 14, 15, 16, 17 :: real] \<rparr>)
     = Inr (\<lparr> shape = [4, 1], elems = [1, 2, 3, 0] \<rparr>,
            Some \<lparr> shape = [4, 1, 1], elems = [10, 12, 14, 16] \<rparr>,
            \<lparr> shape = [2, 2, 2], elems = [1, 0, 2, 0, 3, 0, 0, 0] \<rparr>)"
  by code_simp

subsection \<open>Compaction is idempotent\<close>

text \<open>
  Claim C8. Every column of a matrix that \<open>flatten_embedding\<close> returned has a sum that is
  not zero, so the column mask of lines 241-242, computed again on that matrix, holds
  everywhere and selecting by it gives the matrix back.
\<close>

theorem compaction_idempotent:
  assumes ok: "flatten_embedding emb br edge = Inr (ret, edge', emb')"
  shows "(\<forall>k. k < shape ret ! 1 \<longrightarrow> col_sum (shape ret ! 1) (elems ret) k \<noteq> 0)
       \<and> col_mask_of ret = replicate (shape ret ! 1) True
       \<and> select_axis1 (col_mask_of ret) ret = Inr ret"
proof -
  from ok obtain addon cm where dr: "drop_empty_cols emb' = Inr (ret, cm)"
    by (rule flatten_embedding_Inr)
  let ?y = "last (shape emb')"
  let ?R = "length (elems emb') div ?y"
  let ?cols = "nonzero_cols ?y (elems emb')"
  let ?K = "length ?cols"
  note d = drop_empty_cols_Inr [OF dr]
  have K: "shape ret ! 1 = ?K" by (simp add: d(3))
  have cs: "col_sum ?K (elems ret) k \<noteq> 0" if "k < ?K" for k
  proof -
    from that have "?K \<noteq> 0" by auto
    then have "(?R * ?K) div ?K = ?R" by simp
    then have "length (elems ret) div ?K = ?R" by (simp only: d(4))
    then have "col_sum ?K (elems ret) k = sum_list (map (\<lambda>r. elems ret ! (r * ?K + k)) [0..<?R])"
      by (simp add: col_sum_def)
    also have "\<dots> = sum_list (map (\<lambda>r. elems emb' ! (r * ?y + ?cols ! k)) [0..<?R])"
      using d(5) that by (intro arg_cong [where f = sum_list] map_cong) simp_all
    also have "\<dots> = col_sum ?y (elems emb') (?cols ! k)"
      by (simp add: col_sum_def)
    finally show ?thesis using nonzero_cols_sum [OF that] by simp
  qed
  have cm: "col_mask_of ret = replicate ?K True"
    by (rule nth_equalityI) (simp_all add: col_mask_of_def d(3) cs)
  have kp: "kept (replicate ?K True) = [0..<?K]"
    by (simp add: kept_def cong: filter_cong)
  have sh: "shape ret = [?R, ?K]" by (rule d(3))
  obtain ret2 where sel: "select_axis1 (replicate ?K True) ret = Inr ret2"
    by (simp add: select_axis1_def sh)
  have "elems ret2 = elems ret"
  proof (rule nth_equalityI)
    show "length (elems ret2) = length (elems ret)"
      using select_axis1_shape(3) [OF sel sh] by (simp add: kp d(4) numel_def)
  next
    fix i assume "i < length (elems ret2)"
    then have i: "i < ?R * ?K"
      using select_axis1_shape(3) [OF sel sh] by (simp add: kp numel_def)
    then have "0 < ?K" by (cases "?K") simp_all
    then have m: "i mod ?K < ?K" by simp
    have dv: "i div ?K < ?R" using i by (simp add: less_mult_imp_div_less)
    from select_axis1_nth2 [OF sel sh, of "i div ?K" "i mod ?K"] m dv
    show "elems ret2 ! i = elems ret ! i" by (simp add: kp)
  qed
  moreover have "shape ret2 = shape ret"
    using select_axis1_shape(1) [OF sel sh] by (simp add: kp sh)
  ultimately have "ret2 = ret" by simp
  with sel cm cs show ?thesis by (simp add: d(3))
qed

theorem compaction_idempotent_witness:
  "flatten_embedding \<lparr> shape = [2, 2, 3], elems = [1, 0, 3, 0, 0, 2, 1, 0, 0, 0, 0, 3] \<rparr> (arange 2)
       (None :: real tensor option)
     = Inr (\<lparr> shape = [4, 2], elems = [1, 3, 0, 2, 4, 0, 0, 6] \<rparr>, None,
            \<lparr> shape = [2, 2, 3], elems = [1, 0, 3, 0, 0, 2, 4, 0, 0, 0, 0, 6] \<rparr>)
   \<and> col_mask_of \<lparr> shape = [4, 2], elems = [1, 3, 0, 2, 4, 0, 0, 6] \<rparr> = [True, True]
   \<and> select_axis1 (col_mask_of \<lparr> shape = [4, 2], elems = [1, 3, 0, 2, 4, 0, 0, 6] \<rparr>)
        \<lparr> shape = [4, 2], elems = [1, 3, 0, 2, 4, 0, 0, 6 :: long] \<rparr>
      = Inr \<lparr> shape = [4, 2], elems = [1, 3, 0, 2, 4, 0, 0, 6] \<rparr>"
  (is "?A \<and> ?B \<and> ?C")
proof -
  have ok: ?A by code_simp
  note t = compaction_idempotent [OF ok]
  from t have "col_mask_of \<lparr> shape = [4, 2], elems = [1, 3, 0, 2, 4, 0, 0, 6] \<rparr>
               = replicate (shape \<lparr> shape = [4, 2], elems = [1, 3, 0, 2, 4, 0, 0, 6 :: long] \<rparr> ! 1) True"
    by blast
  then have b: ?B by (simp add: numeral_2_eq_2)
  from t have c: ?C by blast
  from ok b c show ?thesis by blast
qed

subsection \<open>Arrays of four axes\<close>

text \<open>
  Claim C10, amended: a call with an array of shape \<open>(seq_len, batch, x, y)\<close>, a batch
  range of length \<open>batch\<close>, \<open>seq_len > 1\<close> and at least one batch element fails at the
  \<open>view\<close> of line 235.
\<close>

theorem flatten_embedding_rank4_fails:
  assumes "shape emb = [seq_len, batch, x, y]" and "length (elems batch_range) = batch"
    and "1 < seq_len" and "0 < batch"
  shows "flatten_embedding emb batch_range edge = Inl RuntimeError"
proof -
  have "seq_len * batch \<noteq> batch" using assms(3,4) by simp
  then have "addon_of emb batch_range = Inl RuntimeError"
    using assms(1,2) by (simp add: addon_of_def view_def scale_def numel_def)
  then show ?thesis by (simp add: flatten_embedding_def)
qed

theorem flatten_embedding_rank4_fails_witness:
  "shape \<lparr> shape = [2, 1, 1, 1], elems = [5, 7 :: long] \<rparr> = [2, 1, 1, 1]
   \<and> length (elems (arange 1)) = 1
   \<and> flatten_embedding \<lparr> shape = [2, 1, 1, 1], elems = [5, 7] \<rparr> (arange 1) (None :: real tensor option)
       = Inl RuntimeError"
proof -
  have sh: "shape \<lparr> shape = [2, 1, 1, 1], elems = [5, 7 :: long] \<rparr> = [2, 1, 1, 1]" by simp
  have len: "length (elems (arange 1)) = 1" by (simp add: arange_def)
  have "(1::nat) < 2" and "(0::nat) < 1" by simp_all
  from flatten_embedding_rank4_fails [OF sh len this] sh len show ?thesis by blast
qed

text \<open>
  Without batch elements the \<open>view\<close> is of no elements as no elements, and the call
  returns.
\<close>

theorem flatten_embedding_rank4_empty_batch_returns:
  "flatten_embedding \<lparr> shape = [2, 0, 2, 3], elems = [] \<rparr> (arange 0) (None :: real tensor option)
     = Inr (\<lparr> shape = [0, 0], elems = [] \<rparr>, None, \<lparr> shape = [2, 0, 2, 3], elems = [] \<rparr>)"
  by code_simp

subsection \<open>The graph batcher and its input\<close>

lemma union_leaves_copies:
  assumes "union cfg dev s = Inr (g, s')"
    and "\<not> shares_memory dev (st_vo s)" and "\<not> shares_memory dev (st_po s)"
  shows "s' = s"
  using assms by (auto simp: union_def bind_err_Inr written_back_def Let_def)

text \<open>
  Claim C2 asks that \<open>union\<close> leave the arrays of its input as they were and that two
  calls on the same state agree. On a device other than the CPU, or for adjacency arrays
  that do not hold 64-bit integers, the tensors are copies and the state is left as it
  was (lemma \<open>union_leaves_copies\<close>). On the CPU with 64-bit arrays the tensor is the
  caller's array: for the batch of two below the first call leaves \<open>vo = [1, 2]\<close> where
  it was \<open>[1, 1]\<close>, and the second call, on the state as the first left it, returns the
  adjacency \<open>[1, 3]\<close> where the first returned \<open>[1, 2]\<close>.
\<close>

theorem union_overwrites_adjacency:
  "map_sum id (\<lambda>(g, s'). (r_adj (g_ve g), arr (st_vo s')))
     (union (GNNBasedActorCriticConfig \<lparr> shape = [1, 1], elems = [1] \<rparr> 1 1 (1/10) (1/10)) cpu
        \<lparr> st_v = \<lparr> shape = [1, 2, 1, 1], elems = [1, 2 :: real] \<rparr>,
           st_p = \<lparr> shape = [1, 2, 1, 1], elems = [3, 4] \<rparr>,
           st_vo = \<lparr> dtype = np_int64, arr = \<lparr> shape = [2, 1, 1], elems = [1, 1] \<rparr> \<rparr>,
           st_po = \<lparr> dtype = np_int64, arr = \<lparr> shape = [2, 1, 1], elems = [0, 0] \<rparr> \<rparr>,
           st_pedge = \<lparr> shape = [2, 1, 1, 1], elems = [5, 6] \<rparr>,
           st_vedge = \<lparr> shape = [2, 1, 1, 1], elems = [7, 8] \<rparr>,
           st_ppedge = \<lparr> shape = [2, 1, 1, 1], elems = [9, 10] \<rparr>,
           st_mask = \<lparr> shape = [2, 1], elems = [True, True] \<rparr>,
           st_p_idx = 0, st_v_idx = 0 \<rparr>)
   = Inr (\<lparr> shape = [1, 2], elems = [1, 2] \<rparr>, \<lparr> shape = [2, 1, 1], elems = [1, 2] \<rparr>)
   \<and> map_sum id (\<lambda>(g, s'). (r_adj (g_ve g), arr (st_vo s')))
     (bind_err
        (union (GNNBasedActorCriticConfig \<lparr> shape = [1, 1], elems = [1] \<rparr> 1 1 (1/10) (1/10)) cpu
           \<lparr> st_v = \<lparr> shape = [1, 2, 1, 1], elems = [1, 2 :: real] \<rparr>,
           st_p = \<lparr> shape = [1, 2, 1, 1], elems = [3, 4] \<rparr>,
           st_vo = \<lparr> dtype = np_int64, arr = \<lparr> shape = [2, 1, 1], elems = [1, 1] \<rparr> \<rparr>,
           st_po = \<lparr> dtype = np_int64, arr = \<lparr> shape = [2, 1, 1], elems = [0, 0] \<rparr> \<rparr>,
           st_pedge = \<lparr> shape = [2, 1, 1, 1], elems = [5, 6] \<rparr>,
           st_vedge = \<lparr> shape = [2, 1, 1, 1], elems = [7, 8] \<rparr>,
           st_ppedge = \<lparr> shape = [2, 1, 1, 1], elems = [9, 10] \<rparr>,
           st_mask = \<lparr> shape = [2, 1], elems = [True, True] \<rparr>,
           st_p_idx = 0, st_v_idx = 0 \<rparr>)
        (\<lambda>(g, s'). union (GNNBasedActorCriticConfig \<lparr> shape = [1, 1], elems = [1] \<rparr> 1 1 (1/10) (1/10)) cpu s'))
   = Inr (\<lparr> shape = [1, 2], elems = [1, 3] \<rparr>, \<lparr> shape = [2, 1, 1], elems = [1, 3] \<rparr>)
   \<and> map_sum id (\<lambda>(g, s'). (r_adj (g_ve g), arr (st_vo s')))
     (union (GNNBasedActorCriticConfig \<lparr> shape = [1, 1], elems = [1] \<rparr> 1 1 (1/10) (1/10)) cuda
        \<lparr> st_v = \<lparr> shape = [1, 2, 1, 1], elems = [1, 2 :: real] \<rparr>,
           st_p = \<lparr> shape = [1, 2, 1, 1], elems = [3, 4] \<rparr>,
           st_vo = \<lparr> dtype = np_int64, arr = \<lparr> shape = [2, 1, 1], elems = [1, 1] \<rparr> \<rparr>,
           st_po = \<lparr> dtype = np_int64, arr = \<lparr> shape = [2, 1, 1], elems = [0, 0] \<rparr> \<rparr>,
           st_pedge = \<lparr> shape = [2, 1, 1, 1], elems = [5, 6] \<rparr>,
           st_vedge = \<lparr> shape = [2, 1, 1, 1], elems = [7, 8] \<rparr>,
           st_ppedge = \<lparr> shape = [2, 1, 1, 1], elems = [9, 10] \<rparr>,
           st_mask = \<lparr> shape = [2, 1], elems = [True, True] \<rparr>,
           st_p_idx = 0, st_v_idx = 0 \<rparr>)
   = Inr (\<lparr> shape = [1, 2], elems = [1, 2] \<rparr>, \<lparr> shape = [2, 1, 1], elems = [1, 1] \<rparr>)"
  by code_simp

subsection \<open>A single sample and a batch of one\<close>

lemma expand_dims_rank:
  "expand_dims t k = Inr t' \<Longrightarrow> length (shape t') = Suc (length (shape t))"
  by (auto simp: expand_dims_def split: if_splits)

lemma add_batch_axis_p:
  assumes "add_batch_axis s = Inr b"
  shows "length (shape (st_p b)) = Suc (length (shape (st_p s)))"
    and "st_p_idx b = st_p_idx s" and "st_v_idx b = st_v_idx s"
  using assms
  by (auto simp: add_batch_axis_def bind_err_Inr dest: expand_dims_rank)

text \<open>
  Claim C9. For a single sample (\<open>p\<close> has three axes) and the batch of one that holds
  it (every array with its batch axis, as lines 166-173 add it), \<open>choose_action\<close> calls
  the network on the same graph with the same indices, so for every network, sampler and
  state of the random generator the single call returns what the batched call returns
  with the batch axis taken away: the first action and the first log-probability.
\<close>

theorem choose_action_single_vs_batch:
  assumes single: "length (shape (st_p s)) = 3" and b: "add_batch_axis s = Inr b"
  shows "map_sum id fst (choose_action model sample log_prob cfg dev rng s)
         = bind_err (map_sum id fst (choose_action model sample log_prob cfg dev rng b)) unbatch"
proof -
  have nb: "length (shape (st_p b)) \<noteq> 3"
    using add_batch_axis_p(1) [OF b] single by simp
  show ?thesis
  proof (cases "union_batched cfg b")
    case (Inl e)
    then show ?thesis
      by (simp add: choose_action_def union_def single b nb)
  next
    case (Inr r)
    obtain g vo' po' where r: "r = (g, vo', po')" by (cases r)
    show ?thesis
      by (simp add: choose_action_def union_def single b nb Inr r add_batch_axis_p [OF b]
               bind_err_def Let_def split: sum.splits)
  qed
qed

theorem choose_action_single_vs_batch_witness:
  "length (shape (st_p
        \<lparr> st_v = \<lparr> shape = [1, 1, 1], elems = [1 :: real] \<rparr>,
           st_p = \<lparr> shape = [1, 1, 1], elems = [3] \<rparr>,
           st_vo = \<lparr> dtype = np_int64, arr = \<lparr> shape = [1, 1], elems = [1] \<rparr> \<rparr>,
           st_po = \<lparr> dtype = np_int64, arr = \<lparr> shape = [1, 1], elems = [1] \<rparr> \<rparr>,
           st_pedge = \<lparr> shape = [1, 1, 1], elems = [5] \<rparr>,
           st_vedge = \<lparr> shape = [1, 1, 1], elems = [7] \<rparr>,
           st_ppedge = \<lparr> shape = [1, 1, 1], elems = [9] \<rparr>,
           st_mask = \<lparr> shape = [1], elems = [True] \<rparr>,
           st_p_idx = 0, st_v_idx = 0 \<rparr>)) = 3
   \<and> add_batch_axis
        \<lparr> st_v = \<lparr> shape = [1, 1, 1], elems = [1 :: real] \<rparr>,
           st_p = \<lparr> shape = [1, 1, 1], elems = [3] \<rparr>,
           st_vo = \<lparr> dtype = np_int64, arr = \<lparr> shape = [1, 1], elems = [1] \<rparr> \<rparr>,
           st_po = \<lparr> dtype = np_int64, arr = \<lparr> shape = [1, 1], elems = [1] \<rparr> \<rparr>,
           st_pedge = \<lparr> shape = [1, 1, 1], elems = [5] \<rparr>,
           st_vedge = \<lparr> shape = [1, 1, 1], elems = [7] \<rparr>,
           st_ppedge = \<lparr> shape = [1, 1, 1], elems = [9] \<rparr>,
           st_mask = \<lparr> shape = [1], elems = [True] \<rparr>,
           st_p_idx = 0, st_v_idx = 0 \<rparr>
     = Inr
        \<lparr> st_v = \<lparr> shape = [1, 1, 1, 1], elems = [1 :: real] \<rparr>,
           st_p = \<lparr> shape = [1, 1, 1, 1], elems = [3] \<rparr>,
           st_vo = \<lparr> dtype = np_int64, arr = \<lparr> shape = [1, 1, 1], elems = [1] \<rparr> \<rparr>,
           st_po = \<lparr> dtype = np_int64, arr = \<lparr> shape = [1, 1, 1], elems = [1] \<rparr> \<rparr>,
           st_pedge = \<lparr> shape = [1, 1, 1, 1], elems = [5] \<rparr>,
           st_vedge = \<lparr> shape = [1, 1, 1, 1], elems = [7] \<rparr>,
           st_ppedge = \<lparr> shape = [1, 1, 1, 1], elems = [9] \<rparr>,
           st_mask = \<lparr> shape = [1, 1], elems = [True] \<rparr>,
           st_p_idx = 0, st_v_idx = 0 \<rparr>
   \<and> map_sum id fst
       (choose_action (\<lambda>g p v. elems (r_adj (g_ve g))) (\<lambda>d (r :: nat). d) (\<lambda>d a. a)
          (GNNBasedActorCriticConfig \<lparr> shape = [1, 1], elems = [1] \<rparr> 1 1 (1/10) (1/10)) cpu 0
          \<lparr> st_v = \<lparr> shape = [1, 1, 1, 1], elems = [1 :: real] \<rparr>,
           st_p = \<lparr> shape = [1, 1, 1, 1], elems = [3] \<rparr>,
           st_vo = \<lparr> dtype = np_int64, arr = \<lparr> shape = [1, 1, 1], elems = [1] \<rparr> \<rparr>,
           st_po = \<lparr> dtype = np_int64, arr = \<lparr> shape = [1, 1, 1], elems = [1] \<rparr> \<rparr>,
           st_pedge = \<lparr> shape = [1, 1, 1, 1], elems = [5] \<rparr>,
           st_vedge = \<lparr> shape = [1, 1, 1, 1], elems = [7] \<rparr>,
           st_ppedge = \<lparr> shape = [1, 1, 1, 1], elems = [9] \<rparr>,
           st_mask = \<lparr> shape = [1, 1], elems = [True] \<rparr>,
           st_p_idx = 0, st_v_idx = 0 \<rparr>)
     = Inr (Many [1] [1])
   \<and> map_sum id fst
       (choose_action (\<lambda>g p v. elems (r_adj (g_ve g))) (\<lambda>d (r :: nat). d) (\<lambda>d a. a)
          (GNNBasedActorCriticConfig \<lparr> shape = [1, 1], elems = [1] \<rparr> 1 1 (1/10) (1/10)) cpu 0
          \<lparr> st_v = \<lparr> shape = [1, 1, 1], elems = [1 :: real] \<rparr>,
           st_p = \<lparr> shape = [1, 1, 1], elems = [3] \<rparr>,
           st_vo = \<lparr> dtype = np_int64, arr = \<lparr> shape = [1, 1], elems = [1] \<rparr> \<rparr>,
           st_po = \<lparr> dtype = np_int64, arr = \<lparr> shape = [1, 1], elems = [1] \<rparr> \<rparr>,
           st_pedge = \<lparr> shape = [1, 1, 1], elems = [5] \<rparr>,
           st_vedge = \<lparr> shape = [1, 1, 1], elems = [7] \<rparr>,
           st_ppedge = \<lparr> shape = [1, 1, 1], elems = [9] \<rparr>,
           st_mask = \<lparr> shape = [1], elems = [True] \<rparr>,
           st_p_idx = 0, st_v_idx = 0 \<rparr>)
     = Inr (One 1 1)"
  (is "?A \<and> ?B \<and> ?C \<and> ?D")
proof -
  have a: ?A by simp
  have b: ?B by code_simp
  have c: ?C by code_simp
  note t = choose_action_single_vs_batch [OF a b, of "\<lambda>g p v. elems (r_adj (g_ve g))"
      "\<lambda>d (r :: nat). d" "\<lambda>d a. a" "(GNNBasedActorCriticConfig \<lparr> shape = [1, 1], elems = [1] \<rparr> 1 1 (1/10) (1/10))" cpu 0]
  have d: ?D unfolding t c by (simp add: first_of_def)
  from a b c d show ?thesis by blast
qed

subsection \<open>The advantage\<close>

text \<open>
  Claim C5. With a reward discount of 1 the value discount is 1; for returns
  \<open>[5, 5]\<close>, values \<open>[[1, 1], [1, 1]]\<close> and next values \<open>[[0, 0], [0, 0]]\<close> line 116
  gives the advantage \<open>[[4, 4], [4, 4]]\<close>, the critic loss of that advantage is 32, and
  with an entropy factor of 0 this is the critic loss that \<open>learn\<close> returns, whatever the
  log-probabilities and entropies are.
\<close>

theorem end_to_end_advantage:
  "value_discount (GNNBasedActorCriticConfig \<lparr> shape = [2, 2], elems = [0, 1, 1, 0] \<rparr> 1 1 c e) = 1
   \<and> advantage_of (GNNBasedActorCriticConfig \<lparr> shape = [2, 2], elems = [0, 1, 1, 0] \<rparr> 1 1 c e)
        \<lparr> shape = [2], elems = [5, 5] \<rparr>
        \<lparr> shape = [2, 2], elems = [0, 0, 0, 0] \<rparr>
        \<lparr> shape = [2, 2], elems = [1, 1, 1, 1] \<rparr>
      = Inr \<lparr> shape = [2, 2], elems = [4, 4, 4, 4] \<rparr>
   \<and> critic_loss_of \<lparr> shape = [2, 2], elems = [4, 4, 4, 4] \<rparr> = Inr (Some 32)
   \<and> map_sum id (fst \<circ> snd)
        (learn (GNNBasedActorCriticConfig \<lparr> shape = [2, 2], elems = [0, 1, 1, 0] \<rparr> 1 1 c 0)
           \<lparr> shape = [2], elems = [5, 5] \<rparr>
           \<lparr> shape = [2, 2], elems = [1, 1, 1, 1] \<rparr>
           \<lparr> shape = [2, 2], elems = [0, 0, 0, 0] \<rparr>
           \<lparr> shape = [2], elems = [l0, l1] \<rparr> \<lparr> shape = [2], elems = [h0, h1] \<rparr> 0)
      = Inr (Some 32)"
  by (simp add: advantage_of_def GNNBasedActorCriticConfig_def scalar_times_def broadcast2_def numel_def
        critic_loss_of_def sum_axis1_def pow2_def mean_def learn_def learn_advantage_def
        add_entropy_def actor_loss_of_def sum_last_def block_def upt_rec)

subsection \<open>The entropy bonus\<close>

lemma column_iadd_matrix:
  assumes sa: "shape a = [B, P]" and st: "shape t = [B]" and j: "0 \<le> j" "j < int P"
  shows "column_iadd a j t =
    Inr \<lparr> shape = [B, P],
          elems = map (\<lambda>i. if i mod P = nat j
                            then elems a ! i + elems t ! bcast_index [B] [B] (i div P)
                            else elems a ! i) [0..<length (elems a)] \<rparr>"
  using j by (simp add: column_iadd_def sa st numel_def del: bcast_index.simps)

lemma broadcast2_wf: "broadcast2 f a b = Inr r \<Longrightarrow> wf_tensor r"
  by (auto simp: broadcast2_def wf_tensor_def split: option.splits)

lemma advantage_of_wf: "advantage_of cfg returns values_next values = Inr adv \<Longrightarrow> wf_tensor adv"
  by (auto simp: advantage_of_def bind_err_Inr dest: broadcast2_wf)

text \<open>
  Claim C6. Let line 116 give an advantage of shape \<open>(B, P)\<close>, let the entropies have
  shape \<open>(B)\<close> and let the port index be within \<open>0 \<le> p_idx < P\<close>. If the entropy factor
  is not zero, the advantage that \<open>learn\<close> computes its losses from is the one of line 116
  with the factor times the entropy of each batch element added to the column \<open>p_idx\<close>
  and every other column as it was. If the factor is zero, it is the advantage of line
  116 itself; and then, for all inputs, lines 116-120 give what line 116 alone gives.
\<close>

theorem entropy_bonus_only_on_acting_port:
  assumes adv: "advantage_of cfg returns values_next values = Inr adv"
    and sa: "shape adv = [B, P]"
    and se: "shape ent = [B]" and we: "wf_tensor ent"
    and j: "0 \<le> p_idx" "p_idx < int P"
  shows "(entropy_factor cfg \<noteq> 0 \<longrightarrow>
            (\<exists>adv'. learn_advantage cfg returns values_next values ent p_idx = Inr adv'
               \<and> shape adv' = [B, P]
               \<and> (\<forall>b p. b < B \<and> p < P \<longrightarrow>
                     elems adv' ! (b * P + p)
                     = (if p = nat p_idx
                        then elems adv ! (b * P + p) + entropy_factor cfg * elems ent ! b
                        else elems adv ! (b * P + p)))
               \<and> learn cfg returns values values_next log_prob ent p_idx
                   = bind_err (actor_loss_of log_prob adv') (\<lambda>actor_loss.
                     bind_err (critic_loss_of adv') (\<lambda>critic_loss.
                       Inr (actor_loss, critic_loss, mean ent)))))
       \<and> (entropy_factor cfg = 0 \<longrightarrow>
            learn_advantage cfg returns values_next values ent p_idx = Inr adv
            \<and> learn cfg returns values values_next log_prob ent p_idx
                = bind_err (actor_loss_of log_prob adv) (\<lambda>actor_loss.
                  bind_err (critic_loss_of adv) (\<lambda>critic_loss.
                    Inr (actor_loss, critic_loss, mean ent))))
       \<and> (entropy_factor cfg = 0 \<longrightarrow>
            learn_advantage cfg returns' values_next' values' ent' p_idx'
            = advantage_of cfg returns' values_next' values')"
proof -
  have wa: "wf_tensor adv" using adv by (rule advantage_of_wf)
  let ?t = "scalar_times (entropy_factor cfg) ent"
  let ?adv' = "\<lparr> shape = [B, P],
          elems = map (\<lambda>i. if i mod P = nat p_idx
                            then elems adv ! i + elems ?t ! bcast_index [B] [B] (i div P)
                            else elems adv ! i) [0..<length (elems adv)] \<rparr>"
  have n: "length (elems adv) = B * P" using wa sa by (simp add: wf_tensor_def numel_def)
  have m: "length (elems ent) = B" using we se by (simp add: wf_tensor_def numel_def)
  have st: "shape ?t = [B]" by (simp add: scalar_times_def se)
  have r: "add_entropy cfg p_idx ent adv = Inr ?adv'" if "entropy_factor cfg \<noteq> 0"
    using that column_iadd_matrix [OF sa st j] by (simp add: add_entropy_def)
  have la: "learn_advantage cfg returns values_next values ent p_idx = Inr ?adv'"
    if "entropy_factor cfg \<noteq> 0"
    by (simp add: learn_advantage_def adv r [OF that])
  have nth: "elems ?adv' ! (b * P + p)
          = (if p = nat p_idx
             then elems adv ! (b * P + p) + entropy_factor cfg * elems ent ! b
             else elems adv ! (b * P + p))" if "b < B \<and> p < P" for b p
  proof -
    from that have b: "b < B" and p: "p < P" by simp_all
    define i where "i = b * P + p"
    have "i < Suc b * P" using p by (simp add: i_def)
    also have "\<dots> \<le> B * P" using b by (intro mult_le_mono1) simp
    finally have lt: "i < B * P" .
    have md: "i mod P = p" "i div P = b" using p by (simp_all add: i_def)
    have bi: "bcast_index [B] [B] b = b" using b by (intro bcast_index_same) simp
    have e1: "elems ?adv' ! i
              = (if i mod P = nat p_idx
                 then elems adv ! i + elems ?t ! bcast_index [B] [B] (i div P)
                 else elems adv ! i)"
      using lt by (simp add: n del: bcast_index.simps)
    have e2: "elems ?t ! b = entropy_factor cfg * elems ent ! b"
      using b by (simp add: scalar_times_def m)
    show ?thesis
      unfolding i_def [symmetric] by (simp only: e1 md bi e2)
  qed
  have nz: "\<exists>adv'. learn_advantage cfg returns values_next values ent p_idx = Inr adv'
               \<and> shape adv' = [B, P]
               \<and> (\<forall>b p. b < B \<and> p < P \<longrightarrow>
                     elems adv' ! (b * P + p)
                     = (if p = nat p_idx
                        then elems adv ! (b * P + p) + entropy_factor cfg * elems ent ! b
                        else elems adv ! (b * P + p)))
               \<and> learn cfg returns values values_next log_prob ent p_idx
                   = bind_err (actor_loss_of log_prob adv') (\<lambda>actor_loss.
                     bind_err (critic_loss_of adv') (\<lambda>critic_loss.
                       Inr (actor_loss, critic_loss, mean ent)))"
    if ef: "entropy_factor cfg \<noteq> 0"
  proof (intro exI [of _ ?adv'] conjI)
    show "learn_advantage cfg returns values_next values ent p_idx = Inr ?adv'"
      by (rule la [OF ef])
    show "shape ?adv' = [B, P]" by simp
    show "\<forall>b p. b < B \<and> p < P \<longrightarrow>
                     elems ?adv' ! (b * P + p)
                     = (if p = nat p_idx
                        then elems adv ! (b * P + p) + entropy_factor cfg * elems ent ! b
                        else elems adv ! (b * P + p))"
      using nth by blast
    show "learn cfg returns values values_next log_prob ent p_idx
                   = bind_err (actor_loss_of log_prob ?adv') (\<lambda>actor_loss.
                     bind_err (critic_loss_of ?adv') (\<lambda>critic_loss.
                       Inr (actor_loss, critic_loss, mean ent)))"
      unfolding learn_def la [OF ef] bind_err_simps ..
  qed
  have z0: "learn_advantage cfg returns values_next values ent p_idx = Inr adv"
    if "entropy_factor cfg = 0"
    using that by (simp add: learn_advantage_def adv add_entropy_def)
  have z: "learn_advantage cfg returns values_next values ent p_idx = Inr adv
            \<and> learn cfg returns values values_next log_prob ent p_idx
                = bind_err (actor_loss_of log_prob adv) (\<lambda>actor_loss.
                  bind_err (critic_loss_of adv) (\<lambda>critic_loss.
                    Inr (actor_loss, critic_loss, mean ent)))"
    if ef: "entropy_factor cfg = 0"
    unfolding learn_def z0 [OF ef] bind_err_simps by simp
  have g: "learn_advantage cfg returns' values_next' values' ent' p_idx'
            = advantage_of cfg returns' values_next' values'"
    if "entropy_factor cfg = 0"
    using that by (cases "advantage_of cfg returns' values_next' values'")
       (simp_all add: add_entropy_def learn_advantage_def)
  from nz z g show ?thesis by blast
qed

theorem entropy_bonus_only_on_acting_port_witness:
  "advantage_of (GNNBasedActorCriticConfig \<lparr> shape = [2, 2], elems = [0, 1, 1, 0] \<rparr> 1 1 (1/10) (1/2))
      \<lparr> shape = [2], elems = [5, 5] \<rparr> \<lparr> shape = [2, 2], elems = [0, 0, 0, 0] \<rparr>
      \<lparr> shape = [2, 2], elems = [1, 1, 1, 1] \<rparr>
     = Inr \<lparr> shape = [2, 2], elems = [4, 4, 4, 4] \<rparr>
   \<and> wf_tensor \<lparr> shape = [2], elems = [2, 4 :: real] \<rparr>
   \<and> entropy_factor (GNNBasedActorCriticConfig \<lparr> shape = [2, 2], elems = [0, 1, 1, 0] \<rparr> 1 1 (1/10) (1/2)) \<noteq> 0
   \<and> (\<exists>adv'. learn_advantage (GNNBasedActorCriticConfig \<lparr> shape = [2, 2], elems = [0, 1, 1, 0] \<rparr> 1 1 (1/10) (1/2))
                 \<lparr> shape = [2], elems = [5, 5] \<rparr> \<lparr> shape = [2, 2], elems = [0, 0, 0, 0] \<rparr>
                 \<lparr> shape = [2, 2], elems = [1, 1, 1, 1] \<rparr> \<lparr> shape = [2], elems = [2, 4] \<rparr> 0
               = Inr adv'
             \<and> elems adv' ! (1 * 2 + 0) = 4 + 1 / 2 * 4
             \<and> elems adv' ! (1 * 2 + 1) = 4)
   \<and> learn_advantage (GNNBasedActorCriticConfig \<lparr> shape = [2, 2], elems = [0, 1, 1, 0] \<rparr> 1 1 (1/10) (1/2))
         \<lparr> shape = [2], elems = [5, 5] \<rparr> \<lparr> shape = [2, 2], elems = [0, 0, 0, 0] \<rparr>
         \<lparr> shape = [2, 2], elems = [1, 1, 1, 1] \<rparr> \<lparr> shape = [2], elems = [2, 4] \<rparr> 0
       = Inr \<lparr> shape = [2, 2], elems = [5, 4, 6, 4] \<rparr>
   \<and> learn (GNNBasedActorCriticConfig \<lparr> shape = [2, 2], elems = [0, 1, 1, 0] \<rparr> 1 1 (1/10) (1/2))
         \<lparr> shape = [2], elems = [5, 5] \<rparr> \<lparr> shape = [2, 2], elems = [1, 1, 1, 1] \<rparr>
         \<lparr> shape = [2, 2], elems = [0, 0, 0, 0] \<rparr> \<lparr> shape = [2], elems = [- 1, - 2] \<rparr>
         \<lparr> shape = [2], elems = [2, 4] \<rparr> 0
       = Inr (Some (29 / 2), Some (93 / 2), Some 3)"
  (is "?A \<and> ?B \<and> ?C \<and> ?D \<and> ?E \<and> ?F")
proof -
  let ?cfg = "(GNNBasedActorCriticConfig \<lparr> shape = [2, 2], elems = [0, 1, 1, 0] \<rparr> 1 1 (1/10) (1/2))"
  let ?ret = "\<lparr> shape = [2], elems = [5, 5 :: real] \<rparr>"
  let ?vn = "\<lparr> shape = [2, 2], elems = [0, 0, 0, 0 :: real] \<rparr>"
  let ?v = "\<lparr> shape = [2, 2], elems = [1, 1, 1, 1 :: real] \<rparr>"
  let ?adv = "\<lparr> shape = [2, 2], elems = [4, 4, 4, 4 :: real] \<rparr>"
  let ?ent = "\<lparr> shape = [2], elems = [2, 4 :: real] \<rparr>"
  let ?lp = "\<lparr> shape = [2], elems = [- 1, - 2 :: real] \<rparr>"
  have a: ?A
    by (simp add: advantage_of_def GNNBasedActorCriticConfig_def scalar_times_def broadcast2_def
          numel_def upt_rec)
  have b: ?B by (simp add: wf_tensor_def numel_def)
  have c: ?C by (simp add: GNNBasedActorCriticConfig_def)
  have sa: "shape ?adv = [2, 2]" and se: "shape ?ent = [2]" by simp_all
  have j: "(0::int) \<le> 0" "(0::int) < int 2" by simp_all
  note t = entropy_bonus_only_on_acting_port [OF a sa se b j, where log_prob = ?lp]
  from t c obtain adv' where r: "learn_advantage ?cfg ?ret ?vn ?v ?ent 0 = Inr adv'"
    and n: "\<forall>b p. b < 2 \<and> p < 2 \<longrightarrow>
                elems adv' ! (b * 2 + p)
                = (if p = nat 0 then elems ?adv ! (b * 2 + p) + entropy_factor ?cfg * elems ?ent ! b
                   else elems ?adv ! (b * 2 + p))"
    and l: "learn ?cfg ?ret ?v ?vn ?lp ?ent 0
            = bind_err (actor_loss_of ?lp adv') (\<lambda>actor_loss.
              bind_err (critic_loss_of adv') (\<lambda>critic_loss.
                Inr (actor_loss, critic_loss, mean ?ent)))"
    by blast
  have "(1::nat) < 2 \<and> (0::nat) < 2" and "(1::nat) < 2 \<and> (1::nat) < 2" by simp_all
  with n have "elems adv' ! (1 * 2 + 0)
                = (if (0::nat) = nat 0 then elems ?adv ! (1 * 2 + 0) + entropy_factor ?cfg * elems ?ent ! 1
                   else elems ?adv ! (1 * 2 + 0))"
    and "elems adv' ! (1 * 2 + 1)
                = (if (1::nat) = nat 0 then elems ?adv ! (1 * 2 + 1) + entropy_factor ?cfg * elems ?ent ! 1
                   else elems ?adv ! (1 * 2 + 1))"
    by blast+
  then have "elems adv' ! (1 * 2 + 0) = 4 + 1 / 2 * 4" and "elems adv' ! (1 * 2 + 1) = 4"
    by (simp_all add: GNNBasedActorCriticConfig_def)
  with r have d: ?D by blast
  have e: ?E
    unfolding learn_advantage_def a bind_err_simps
    by (simp add: add_entropy_def column_iadd_def GNNBasedActorCriticConfig_def
          scalar_times_def numel_def upt_rec)
  from r e have "adv' = \<lparr> shape = [2, 2], elems = [5, 4, 6, 4] \<rparr>" by simp
  with l have f: ?F
    by (simp add: actor_loss_of_def critic_loss_of_def sum_last_def sum_axis1_def pow2_def
          mean_def broadcast2_def block_def numel_def upt_rec)
  from a b c d e f show ?thesis by blast
qed

subsection \<open>Loading the latest weights\<close>

lemma sorted_le_last: "sorted xs \<Longrightarrow> x \<in> set xs \<Longrightarrow> x \<le> last xs"
  by (induction xs) (auto split: if_splits)

lemma latest_checkpoint_ok:
  assumes ne: "fps \<noteq> []" and all: "list_all has_save_idx fps"
    and fps: "fps = filter (\<lambda>f. contains f ''ac'') names"
  shows "latest_checkpoint names = Inr (last (sort_key save_idx fps))"
    and "last (sort_key save_idx fps) \<in> set fps"
    and "\<forall>g\<in>set fps. save_idx g \<le> save_idx (last (sort_key save_idx fps))"
proof -
  let ?s = "sort_key save_idx fps"
  have s: "?s \<noteq> []" using ne by (metis set_sort set_empty)
  show "latest_checkpoint names = Inr (last ?s)"
    using all s by (simp add: latest_checkpoint_def fps [symmetric])
  have "last ?s \<in> set ?s" using s by (rule last_in_set)
  then show "last ?s \<in> set fps" by simp
  have "sorted (map save_idx ?s)" by (rule sorted_sort_key)
  then have "\<And>g. g \<in> set ?s \<Longrightarrow> save_idx g \<le> last (map save_idx ?s)"
    by (intro sorted_le_last) auto
  then show "\<forall>g\<in>set fps. save_idx g \<le> save_idx (last ?s)"
    using s by (simp add: last_map)
qed

lemma has_save_idx_iff: "has_save_idx f = (\<exists>k. get_save_idx f = Inr k)"
  by (cases "get_save_idx f") (simp_all add: has_save_idx_def)

lemma save_idx_eq: "get_save_idx f = Inr k \<Longrightarrow> save_idx f = k"
  by (simp add: save_idx_def)

lemma last_filter_last:
  assumes "xs \<noteq> []" and "P (last xs)"
  shows "last (filter P xs) = last xs"
proof -
  from assms(1) have "xs = butlast xs @ [last xs]" by simp
  then have "filter P xs = filter P (butlast xs) @ [last xs]"
    using assms(2) by (metis filter.simps(1,2) filter_append)
  then show ?thesis by simp
qed

lemma latest_checkpoint_last:
  assumes ne: "fps \<noteq> []"
  shows "last (sort_key save_idx fps)
         = last (filter (\<lambda>g. save_idx g = save_idx (last (sort_key save_idx fps))) fps)"
proof -
  let ?s = "sort_key save_idx fps"
  let ?k = "save_idx (last ?s)"
  have s: "?s \<noteq> []" using ne by (metis set_sort set_empty)
  have "last (filter (\<lambda>g. save_idx g = ?k) ?s) = last ?s"
    using s by (rule last_filter_last) simp
  then show ?thesis by (simp only: sort_key_stable)
qed

text \<open>
  Claim C3, amended. Let \<open>fps\<close> be the names of the folder that contain \<^verbatim>\<open>ac\<close>. If
  there is one and \<^verbatim>\<open>_get_save_idx\<close> reads an index from each, \<open>load_model\<close> with
  \<open>idx = -1\<close> loads the weights of the file whose index is the greatest (of several names
  with that index, the one listed last). If there is none, the call raises the
  \<^verbatim>\<open>IndexError\<close> of \<^verbatim>\<open>fps[-1]\<close>. If \<^verbatim>\<open>_get_save_idx\<close> raises on one of them,
  an ASCII name, the call raises that \<^verbatim>\<open>ValueError\<close>.
\<close>

theorem load_model_latest:
  assumes fps: "fps = filter (\<lambda>f. contains f ''ac'') (map fst folder)"
  shows "(fps \<noteq> [] \<and> (\<forall>g\<in>set fps. \<exists>k. get_save_idx g = Inr k) \<longrightarrow>
            (\<exists>f k w. f \<in> set fps \<and> get_save_idx f = Inr k
                \<and> (\<forall>g\<in>set fps. \<exists>k'. get_save_idx g = Inr k' \<and> k' \<le> k)
                \<and> f = last (filter (\<lambda>g. get_save_idx g = Inr k) fps)
                \<and> map_of folder f = Some w
                \<and> load_model sd folder (- 1) = set_gnn_weights sd w))
       \<and> (fps = [] \<longrightarrow> load_model sd folder (- 1) = Inl IndexError)
       \<and> ((\<exists>g\<in>set fps. list_all is_ascii g \<and> get_save_idx g = Inl ValueError)
            \<longrightarrow> load_model sd folder (- 1) = Inl ValueError)"
proof (intro conjI impI)
  assume a: "fps \<noteq> [] \<and> (\<forall>g\<in>set fps. \<exists>k. get_save_idx g = Inr k)"
  then have all: "list_all has_save_idx fps"
    by (simp add: list_all_iff has_save_idx_iff)
  let ?f = "last (sort_key save_idx fps)"
  from a have ne: "fps \<noteq> []" by simp
  note l = latest_checkpoint_ok [OF ne all fps]
  from l(2) a obtain k where k: "get_save_idx ?f = Inr k" by blast
  from l(2) have "?f \<in> fst ` set folder" by (simp add: fps)
  then obtain w where w: "map_of folder ?f = Some w"
    by (metis map_of_eq_None_iff not_Some_eq)
  have mx: "\<forall>g\<in>set fps. \<exists>k'. get_save_idx g = Inr k' \<and> k' \<le> k"
  proof
    fix g assume g: "g \<in> set fps"
    with a obtain k' where k': "get_save_idx g = Inr k'" by blast
    from l(3) g have "save_idx g \<le> save_idx ?f" by blast
    then show "\<exists>k'. get_save_idx g = Inr k' \<and> k' \<le> k"
      by (simp add: k' save_idx_eq [OF k] save_idx_eq [OF k'])
  qed
  have "filter (\<lambda>g. save_idx g = save_idx ?f) fps = filter (\<lambda>g. get_save_idx g = Inr k) fps"
  proof (rule filter_cong [OF refl])
    fix g assume "g \<in> set fps"
    with a obtain k' where k': "get_save_idx g = Inr k'" by blast
    show "(save_idx g = save_idx ?f) = (get_save_idx g = Inr k)"
      by (simp add: k' save_idx_eq [OF k] save_idx_eq [OF k'])
  qed
  with latest_checkpoint_last [OF ne]
  have lst: "?f = last (filter (\<lambda>g. get_save_idx g = Inr k) fps)" by simp
  have "load_model sd folder (- 1) = set_gnn_weights sd w"
    by (simp add: load_model_def l(1) w)
  with mx lst show "\<exists>f k w. f \<in> set fps \<and> get_save_idx f = Inr k
                \<and> (\<forall>g\<in>set fps. \<exists>k'. get_save_idx g = Inr k' \<and> k' \<le> k)
                \<and> f = last (filter (\<lambda>g. get_save_idx g = Inr k) fps)
                \<and> map_of folder f = Some w
                \<and> load_model sd folder (- 1) = set_gnn_weights sd w"
    using l(2) k w by blast
next
  assume "fps = []"
  then show "load_model sd folder (- 1) = Inl IndexError"
    by (simp add: load_model_def latest_checkpoint_def fps [symmetric])
next
  assume "\<exists>g\<in>set fps. list_all is_ascii g \<and> get_save_idx g = Inl ValueError"
  then obtain g where g: "g \<in> set fps" and e: "get_save_idx g = Inl ValueError" by blast
  from e have "\<not> has_save_idx g" by (simp add: has_save_idx_def)
  with g have "\<not> list_all has_save_idx fps"
    by (auto simp: list_all_iff)
  then show "load_model sd folder (- 1) = Inl ValueError"
    by (simp add: load_model_def latest_checkpoint_def fps [symmetric])
qed

theorem load_model_latest_witness:
  "filter (\<lambda>f. contains f ''ac'')
      (map fst [(''3_ac.pkl'', [(''w'', \<lparr> shape = [1], elems = [3 :: real] \<rparr>)]),
         (''10_ac.pkl'', [(''w'', \<lparr> shape = [1], elems = [10] \<rparr>)]),
         (''notes.txt'', [])])
     = [''3_ac.pkl'', ''10_ac.pkl'']
   \<and> get_save_idx ''3_ac.pkl'' = Inr 3
   \<and> get_save_idx ''10_ac.pkl'' = Inr 10
   \<and> load_model [''w'' \<mapsto> \<lparr> shape = [1], elems = [0] \<rparr>]
        [(''3_ac.pkl'', [(''w'', \<lparr> shape = [1], elems = [3 :: real] \<rparr>)]),
         (''10_ac.pkl'', [(''w'', \<lparr> shape = [1], elems = [10] \<rparr>)]),
         (''notes.txt'', [])] (- 1)
     = Inr [''w'' \<mapsto> \<lparr> shape = [1], elems = [10] \<rparr>]
   \<and> list_all is_ascii ''actor.txt''
   \<and> get_save_idx ''actor.txt'' = Inl ValueError
   \<and> load_model Map.empty [(''actor.txt'', [])] (- 1) = Inl ValueError"
  (is "?A \<and> ?B \<and> ?C \<and> ?D \<and> ?E \<and> ?F \<and> ?G")
proof -
  let ?folder = "[(''3_ac.pkl'', [(''w'', \<lparr> shape = [1], elems = [3 :: real] \<rparr>)]),
         (''10_ac.pkl'', [(''w'', \<lparr> shape = [1], elems = [10] \<rparr>)]),
         (''notes.txt'', [])]"
  let ?sd = "[''w'' \<mapsto> \<lparr> shape = [1], elems = [0 :: real] \<rparr>]"
  have a: ?A by code_simp
  have b: ?B by code_simp
  have c: ?C by code_simp
  have ne: "[''3_ac.pkl'', ''10_ac.pkl''] \<noteq> []
            \<and> (\<forall>g\<in>set [''3_ac.pkl'', ''10_ac.pkl'']. \<exists>k. get_save_idx g = Inr k)"
    using b c by simp
  from load_model_latest [OF a [symmetric], of ?sd] ne
  obtain f k w where f: "f \<in> set [''3_ac.pkl'', ''10_ac.pkl'']"
    and k: "get_save_idx f = Inr k"
    and mx: "\<forall>g\<in>set [''3_ac.pkl'', ''10_ac.pkl'']. \<exists>k'. get_save_idx g = Inr k' \<and> k' \<le> k"
    and w: "map_of ?folder f = Some w"
    and l: "load_model ?sd ?folder (- 1) = set_gnn_weights ?sd w"
    by blast
  from mx c have "10 \<le> k" by auto
  with f k b have "f = ''10_ac.pkl''" by auto
  with w have "w = [(''w'', \<lparr> shape = [1], elems = [10] \<rparr>)]" by simp
  with l have d: ?D
    by (simp add: copy_into_def broadcast2_def numel_def)
  have e: ?E by code_simp
  have f': ?F by code_simp
  have fa: "[''actor.txt''] = filter (\<lambda>f. contains f ''ac'') (map fst [(''actor.txt'', [])])"
    by code_simp
  have "\<exists>g\<in>set [''actor.txt'']. list_all is_ascii g \<and> get_save_idx g = Inl ValueError"
    using e f' by simp
  with load_model_latest [OF fa, of Map.empty] have g: ?G by blast
  from a b c d e f' g show ?thesis by blast
qed

text \<open>
  The claim asks for a signal that names the missing checkpoint instead: for the empty
  folder, and for a folder without a matching name, the call ends in the
  \<^verbatim>\<open>IndexError\<close>.
\<close>

theorem load_model_empty_folder:
  "load_model Map.empty [] (- 1) = Inl IndexError
   \<and> load_model Map.empty [(''notes.txt'', [])] (- 1) = Inl IndexError"
  by (simp add: load_model_def latest_checkpoint_def)


end
